theory Spec2Isabelle
  imports Main "HOL-Library.Sublist" "HOL-Library.AList"
begin

section \<open>The cloud boundary: exceptions, requests, responses, interaction trace\<close>

text \<open>
  The two Python modules (\<^verbatim>\<open>knowledge_base_s3.py\<close>, \<^verbatim>\<open>create_knowledge_base_s3vectors.py\<close>)
  are sequential scripts over boto3 clients.  Every client method is an effect on a remote
  service, so the embedding threads an explicit world through the code: the state of the
  service (of an arbitrary type \<open>'s\<close>) and the history of interactions.  The service is a
  parameter \<open>srv\<close> of every function: given its state and a request it returns a response
  or raises, and moves to a new state.  Nothing is assumed about it unless a theorem says
  so.  \<^verbatim>\<open>print\<close> and \<^verbatim>\<open>pprint\<close> produce console output only and are left out.
\<close>

text \<open>
  Exceptions.  botocore's modelled service exceptions (\<^verbatim>\<open>ConflictException\<close>,
  \<^verbatim>\<open>EntityAlreadyExistsException\<close>) are subclasses of \<^verbatim>\<open>ClientError\<close>; \<open>ClientError\<close> below is
  a client error of any other error code.  \<open>BotoCoreError\<close> stands for the SDK's exceptions
  that are not client errors (no credentials, no connection).  All of them derive from
  Python's \<^verbatim>\<open>Exception\<close>.
\<close>

datatype exn =
    ClientError
  | ConflictException
  | EntityAlreadyExistsException
  | BotoCoreError
  | ValueError
  | KeyError
  | IndexError

definition is_ClientError :: "exn \<Rightarrow> bool" where
  "is_ClientError e = (e = ClientError \<or> e = ConflictException \<or> e = EntityAlreadyExistsException)"

definition is_Exception :: "exn \<Rightarrow> bool" where
  "is_Exception e = True"

text \<open>Policy documents: the dictionaries built in \<^verbatim>\<open>create_bedrock_kb_execution_role\<close>
  (\<^verbatim>\<open>Version\<close>, and per statement \<^verbatim>\<open>Effect\<close>, \<^verbatim>\<open>Principal.Service\<close>, \<^verbatim>\<open>Action\<close>, \<^verbatim>\<open>Resource\<close>).\<close>

datatype policy_statement = Statement string "string option" string "string option"

type_synonym policy_document = "string \<times> policy_statement list"

text \<open>The document descriptor of \<^verbatim>\<open>ingest_single_document\<close>.  The service's request shape
  has an optional \<^verbatim>\<open>metadata\<close> member beside \<^verbatim>\<open>content\<close>; \<open>None\<close> is its absence.\<close>

type_synonym metadata = "(string \<times> string list) list"

record document =
  customDocumentIdentifier :: string
  s3Location :: string
  sourceType :: string
  dataSourceType :: string
  doc_metadata :: "metadata option"

record role_rec =
  RoleName :: string
  RoleArn :: string

record knowledge_base_rec =
  knowledgeBaseId :: string
  kb_rec_name :: string

record data_source_rec =
  dataSourceId :: string

record ingestion_job =
  job_status :: string
  ingestionJobId :: string

text \<open>The requests the code sends, one constructor per client method, with the keyword
  arguments the code passes, in the order it passes them.\<close>

datatype api_call =
    GetCallerIdentity
  | HeadBucket string
  | CreateBucket string "string option"
  | CreateVectorBucket string
  | GetVectorBucket string
  | CreateIndex string string nat string string
  | GetIndex string string
  | CreatePolicy string policy_document string
  | GetPolicy string
  | CreatePolicyVersion string policy_document bool
  | CreateRole string policy_document string nat
  | GetRole string
  | UpdateAssumeRolePolicy string policy_document
  | AttachRolePolicy string string
  | ListAttachedRolePolicies string
  | CreateKnowledgeBase string "string option" string string string string
  | ListKnowledgeBases nat
  | GetKnowledgeBase "string option"
  | CreateDataSource string "string option" string string nat nat
  | ListDataSources string nat
  | GetDataSource string string
  | StartIngestionJob string string
  | GetIngestionJob string string string
  | DeleteDataSource string string
  | DeleteKnowledgeBase string
  | ListObjects string
  | DeleteObject string string
  | DeleteBucket string
  | DetachRolePolicy string string
  | DeleteRole string
  | DeletePolicy string
  | IngestKnowledgeBaseDocuments string "document list" string
  | GetKnowledgeBaseDocuments string string "string list"

text \<open>The responses, by the members the code reads.  \<open>Done\<close> is a response none of whose
  members is read.  \<open>Objects None\<close> is a listing without the \<^verbatim>\<open>Contents\<close> key;
  \<open>DocumentDetails\<close> carries the \<^verbatim>\<open>status\<close> of each entry of \<^verbatim>\<open>documentDetails\<close>;
  \<open>KnowledgeBaseSummaries\<close> carries (\<^verbatim>\<open>name\<close>, \<^verbatim>\<open>knowledgeBaseId\<close>) per summary.\<close>

datatype response =
    Done
  | CallerIdentity "string option"
  | VectorBucket string
  | Index string
  | Policy string
  | Role role_rec
  | KnowledgeBase knowledge_base_rec
  | KnowledgeBaseSummaries "(string \<times> string) list"
  | DataSource data_source_rec
  | DataSourceSummaries "string list"
  | IngestionJob ingestion_job
  | Objects "string list option"
  | DocumentDetails "string list"

text \<open>What happened, in order: a request with its answer, a \<^verbatim>\<open>time.sleep\<close> of so many
  seconds, or the randomised wait (1000 to 2000 ms) of the \<^verbatim>\<open>retrying\<close> decorator.\<close>

datatype event =
    Call api_call "exn + response"
  | Sleep nat
  | RetryWait

type_synonym 's server = "'s \<Rightarrow> api_call \<Rightarrow> (exn + response) \<times> 's"

record 's world =
  cloud :: 's
  trace :: "event list"

definition call :: "'s server \<Rightarrow> api_call \<Rightarrow> 's world \<Rightarrow> (exn + response) \<times> 's world" where
  "call srv c w =
     (case srv (cloud w) c of
        (r, s') \<Rightarrow> (r, \<lparr>cloud = s', trace = trace w @ [Call c r]\<rparr>))"

definition sleep :: "nat \<Rightarrow> 's world \<Rightarrow> 's world" where
  "sleep n w = w\<lparr>trace := trace w @ [Sleep n]\<rparr>"

text \<open>Subscripting a response: a missing key raises \<^verbatim>\<open>KeyError\<close>.\<close>

definition vectorBucketArn :: "response \<Rightarrow> exn + string" where
  "vectorBucketArn r = (case r of VectorBucket arn \<Rightarrow> Inr arn | _ \<Rightarrow> Inl KeyError)"

definition indexArn :: "response \<Rightarrow> exn + string" where
  "indexArn r = (case r of Index arn \<Rightarrow> Inr arn | _ \<Rightarrow> Inl KeyError)"

definition Policy_Arn :: "response \<Rightarrow> exn + string" where
  "Policy_Arn r = (case r of Policy arn \<Rightarrow> Inr arn | _ \<Rightarrow> Inl KeyError)"

definition Role_of :: "response \<Rightarrow> exn + role_rec" where
  "Role_of r = (case r of Role ro \<Rightarrow> Inr ro | _ \<Rightarrow> Inl KeyError)"

definition knowledgeBase_of :: "response \<Rightarrow> exn + knowledge_base_rec" where
  "knowledgeBase_of r = (case r of KnowledgeBase kb \<Rightarrow> Inr kb | _ \<Rightarrow> Inl KeyError)"

definition dataSource_of :: "response \<Rightarrow> exn + data_source_rec" where
  "dataSource_of r = (case r of DataSource ds \<Rightarrow> Inr ds | _ \<Rightarrow> Inl KeyError)"

definition ingestionJob_of :: "response \<Rightarrow> exn + ingestion_job" where
  "ingestionJob_of r = (case r of IngestionJob j \<Rightarrow> Inr j | _ \<Rightarrow> Inl KeyError)"

text \<open>Python's \<^verbatim>\<open>try\<close>: the \<^verbatim>\<open>except\<close> clauses are tried in the order they are written and
  the first whose class matches handles the exception; with none, it propagates.\<close>

fun handle ::
  "((exn \<Rightarrow> bool) \<times> (exn \<Rightarrow> 'w \<Rightarrow> (exn + 'a) \<times> 'w)) list \<Rightarrow> exn \<Rightarrow> 'w \<Rightarrow> (exn + 'a) \<times> 'w" where
  "handle [] e w = (Inl e, w)"
| "handle ((matches, handler) # clauses) e w =
     (if matches e then handler e w else handle clauses e w)"

section \<open>String helpers\<close>

text \<open>A character of the model is a code point from U+0000 to U+00FF; text with a code
  point above U+00FF is outside the model.  \<^verbatim>\<open>str.lower\<close> on this range moves the capital
  letters, which are A to Z (65 to 90) and the accented capitals 192 to 222 without the
  multiplication sign 215, up by 32 and leaves every other character as it is.  Then
  \<^verbatim>\<open>str(x)\<close> of an optional string (\<^verbatim>\<open>str(None)\<close> is \<^verbatim>\<open>'None'\<close>) and \<^verbatim>\<open>str.endswith\<close>.\<close>

definition lower_char :: "char \<Rightarrow> char" where
  "lower_char c =
     (let n = (of_char c :: nat)
      in if (65 \<le> n \<and> n \<le> 90) \<or> (192 \<le> n \<and> n \<le> 214) \<or> (216 \<le> n \<and> n \<le> 222)
         then char_of (n + 32)
         else c)"

definition lower :: "string \<Rightarrow> string" where
  "lower s = map lower_char s"

definition str :: "string option \<Rightarrow> string" where
  "str x = (case x of None \<Rightarrow> ''None'' | Some s \<Rightarrow> s)"

definition endswith :: "string \<Rightarrow> string \<Rightarrow> bool" where
  "endswith s sfx = suffix sfx s"

section \<open>Provisioning: \<^verbatim>\<open>BedrockKnowledgeBase\<close>\<close>

definition valid_embedding_models :: "string list" where
  "valid_embedding_models =
     [''cohere.embed-multilingual-v3'',
      ''cohere.embed-english-v3'',
      ''amazon.titan-embed-text-v2:0'']"

text \<open>\<^verbatim>\<open>interactive_sleep(seconds)\<close>: one \<^verbatim>\<open>time.sleep(1)\<close> per iteration of
  \<^verbatim>\<open>range(seconds)\<close>.\<close>

fun interactive_sleep :: "nat \<Rightarrow> 's world \<Rightarrow> 's world" where
  "interactive_sleep 0 w = w"
| "interactive_sleep (Suc n) w = interactive_sleep n (sleep 1 w)"

text \<open>The attributes \<^verbatim>\<open>__init__\<close> sets before its Step 1 (the clients apart), and the whole
  object once Step 4 has returned.\<close>

record kb_self =
  region_name :: string
  account_number :: "string option"
  suffix :: string
  kb_name :: string
  kb_description :: "string option"
  bucket_name :: string
  embedding_model :: string
  kb_execution_role_name :: string
  fm_policy_name :: string
  s3_policy_name :: string

record kb_object = kb_self +
  vector_bucket_name :: string
  vector_index_name :: string
  vector_bucket_arn :: string
  vector_index_arn :: string
  bedrock_kb_execution_role :: role_rec
  knowledge_base :: knowledge_base_rec
  data_source :: data_source_rec

definition create_s3_bucket ::
  "'s server \<Rightarrow> 'a kb_self_scheme \<Rightarrow> 's world \<Rightarrow> (exn + unit) \<times> 's world" where
  "create_s3_bucket srv self w =
     (case call srv (HeadBucket (bucket_name self)) w of
        (Inr _, w1) \<Rightarrow> (Inr (), w1)
      | (Inl e, w1) \<Rightarrow>
          if is_ClientError e then
            (case call srv
                (CreateBucket (bucket_name self)
                   (if region_name self = ''us-east-1'' then None else Some (region_name self))) w1 of
               (Inl e', w2) \<Rightarrow> (Inl e', w2)
             | (Inr _, w2) \<Rightarrow> (Inr (), w2))
          else (Inl e, w1))"

text \<open>The \<^verbatim>\<open>dimension\<close> argument of \<^verbatim>\<open>create_index\<close>: the literal 1024, whatever
  \<^verbatim>\<open>self.embedding_model\<close> is.\<close>

definition index_dimension :: nat where
  "index_dimension = 1024"

definition create_vector_bucket_or_get ::
  "'s server \<Rightarrow> string \<Rightarrow> 's world \<Rightarrow> (exn + string) \<times> 's world" where
  "create_vector_bucket_or_get srv vb_name w =
     (case call srv (CreateVectorBucket vb_name) w of
        (Inr response, w1) \<Rightarrow> (vectorBucketArn response, w1)
      | (Inl e, w1) \<Rightarrow>
          if e = ConflictException then
            (case call srv (GetVectorBucket vb_name) w1 of
               (Inr response, w2) \<Rightarrow> (vectorBucketArn response, w2)
             | (Inl e', w2) \<Rightarrow> (Inl e', w2))
          else (Inl e, w1))"

definition create_index_or_get ::
  "'s server \<Rightarrow> string \<Rightarrow> string \<Rightarrow> 's world \<Rightarrow> (exn + string) \<times> 's world" where
  "create_index_or_get srv vb_name ix_name w =
     (case call srv
         (CreateIndex vb_name ix_name index_dimension
            ''float32'' ''euclidean'') w of
        (Inr response, w1) \<Rightarrow> (indexArn response, w1)
      | (Inl e, w1) \<Rightarrow>
          if e = ConflictException then
            (case call srv (GetIndex vb_name ix_name) w1 of
               (Inr response, w2) \<Rightarrow> (indexArn response, w2)
             | (Inl e', w2) \<Rightarrow> (Inl e', w2))
          else (Inl e, w1))"

text \<open>\<^verbatim>\<open>create_s3_vector_resources\<close>: its two \<^verbatim>\<open>try\<close> statements are the two definitions
  above; the result is (bucket name, index name, bucket ARN, index ARN).\<close>

definition create_s3_vector_resources ::
  "'s server \<Rightarrow> 'a kb_self_scheme \<Rightarrow> 's world
     \<Rightarrow> (exn + string \<times> string \<times> string \<times> string) \<times> 's world" where
  "create_s3_vector_resources srv self w =
     (let vb_name = lower (kb_name self @ ''-vectors-'' @ suffix self);
          ix_name = lower (kb_name self @ ''-index'')
      in case create_vector_bucket_or_get srv vb_name w of
           (Inl e, w1) \<Rightarrow> (Inl e, w1)
         | (Inr vb_arn, w1) \<Rightarrow>
             (case create_index_or_get srv vb_name ix_name w1 of
                (Inl e, w2) \<Rightarrow> (Inl e, w2)
              | (Inr ix_arn, w2) \<Rightarrow>
                  (Inr (vb_name, ix_name, vb_arn,
                        ix_arn), w2)))"

definition foundation_model_policy_document :: policy_document where
  "foundation_model_policy_document =
     (''2012-10-17'', [Statement ''Allow'' None ''bedrock:*'' (Some ''*'')])"

definition s3_policy_document :: policy_document where
  "s3_policy_document =
     (''2012-10-17'',
      [Statement ''Allow'' None ''s3:*'' (Some ''*''),
       Statement ''Allow'' None ''s3vectors:*'' (Some ''*'')])"

definition assume_role_policy_document :: policy_document where
  "assume_role_policy_document =
     (''2012-10-17'',
      [Statement ''Allow'' (Some ''bedrock.amazonaws.com'') ''sts:AssumeRole'' None])"

definition policy_arn :: "string option \<Rightarrow> string \<Rightarrow> string" where
  "policy_arn account name = ''arn:aws:iam::'' @ str account @ '':policy/'' @ name"

definition create_fm_policy ::
  "'s server \<Rightarrow> 'a kb_self_scheme \<Rightarrow> 's world \<Rightarrow> (exn + response) \<times> 's world" where
  "create_fm_policy srv self w =
     (case call srv
         (CreatePolicy (fm_policy_name self) foundation_model_policy_document
            ''Policy for accessing foundation model'') w of
        (Inr fm_policy, w1) \<Rightarrow> (Inr fm_policy, w1)
      | (Inl e, w1) \<Rightarrow>
          if e = EntityAlreadyExistsException then
            call srv (GetPolicy (policy_arn (account_number self) (fm_policy_name self))) w1
          else (Inl e, w1))"

definition create_s3_policy ::
  "'s server \<Rightarrow> 'a kb_self_scheme \<Rightarrow> 's world \<Rightarrow> (exn + response) \<times> 's world" where
  "create_s3_policy srv self w =
     (case call srv
         (CreatePolicy (s3_policy_name self) s3_policy_document
            ''Policy for reading documents from s3'') w of
        (Inr s3_policy, w1) \<Rightarrow> (Inr s3_policy, w1)
      | (Inl e, w1) \<Rightarrow>
          if e = EntityAlreadyExistsException then
            (case call srv (GetPolicy (policy_arn (account_number self) (s3_policy_name self))) w1 of
               (Inl e', w2) \<Rightarrow> (Inl e', w2)
             | (Inr s3_policy, w2) \<Rightarrow>
                 (case Policy_Arn s3_policy of
                    Inl e' \<Rightarrow> (Inl e', w2)
                  | Inr arn \<Rightarrow>
                      (case call srv (CreatePolicyVersion arn s3_policy_document True) w2 of
                         (Inl e', w3) \<Rightarrow> (Inl e', w3)
                       | (Inr _, w3) \<Rightarrow> (Inr s3_policy, w3))))
          else (Inl e, w1))"

definition create_role_or_get ::
  "'s server \<Rightarrow> 'a kb_self_scheme \<Rightarrow> 's world \<Rightarrow> (exn + response) \<times> 's world" where
  "create_role_or_get srv self w =
     (case call srv
         (CreateRole (kb_execution_role_name self) assume_role_policy_document
            ''Amazon Bedrock Knowledge Base Execution Role for accessing S3'' 3600) w of
        (Inr role_response, w1) \<Rightarrow> (Inr role_response, w1)
      | (Inl e, w1) \<Rightarrow>
          if e = EntityAlreadyExistsException then
            (case call srv (GetRole (kb_execution_role_name self)) w1 of
               (Inl e', w2) \<Rightarrow> (Inl e', w2)
             | (Inr role_response, w2) \<Rightarrow>
                 (case call srv
                     (UpdateAssumeRolePolicy (kb_execution_role_name self)
                        assume_role_policy_document) w2 of
                    (Inl e', w3) \<Rightarrow> (Inl e', w3)
                  | (Inr _, w3) \<Rightarrow> (Inr role_response, w3)))
          else (Inl e, w1))"

text \<open>\<^verbatim>\<open>create_bedrock_kb_execution_role\<close>: the three \<^verbatim>\<open>try\<close> statements above, the two
  policy ARNs read from the responses, the two attachments, and the 60 seconds of
  propagation wait.\<close>

definition create_bedrock_kb_execution_role ::
  "'s server \<Rightarrow> 'a kb_self_scheme \<Rightarrow> 's world \<Rightarrow> (exn + role_rec) \<times> 's world" where
  "create_bedrock_kb_execution_role srv self w =
     (case create_fm_policy srv self w of
        (Inl e, w1) \<Rightarrow> (Inl e, w1)
      | (Inr fm_policy, w1) \<Rightarrow>
     (case create_s3_policy srv self w1 of
        (Inl e, w2) \<Rightarrow> (Inl e, w2)
      | (Inr s3_policy, w2) \<Rightarrow>
     (case create_role_or_get srv self w2 of
        (Inl e, w3) \<Rightarrow> (Inl e, w3)
      | (Inr role_response, w3) \<Rightarrow>
     (case Policy_Arn s3_policy of
        Inl e \<Rightarrow> (Inl e, w3)
      | Inr s3_policy_arn \<Rightarrow>
     (case Policy_Arn fm_policy of
        Inl e \<Rightarrow> (Inl e, w3)
      | Inr fm_policy_arn \<Rightarrow>
     (case Role_of role_response of
        Inl e \<Rightarrow> (Inl e, w3)
      | Inr role \<Rightarrow>
     (case call srv (AttachRolePolicy (RoleName role) fm_policy_arn) w3 of
        (Inl e, w4) \<Rightarrow> (Inl e, w4)
      | (Inr _, w4) \<Rightarrow>
     (case call srv (AttachRolePolicy (RoleName role) s3_policy_arn) w4 of
        (Inl e, w5) \<Rightarrow> (Inl e, w5)
      | (Inr _, w5) \<Rightarrow> (Inr role, interactive_sleep 60 w5)))))))))"

text \<open>The \<^verbatim>\<open>retry\<close> decorator of the \<^verbatim>\<open>retrying\<close> package (an external library): the call is
  repeated after any exception, with a random wait in between, until the attempt number
  reaches \<^verbatim>\<open>stop_max_attempt_number\<close>; the last exception is then raised unwrapped.\<close>

fun retry_loop ::
  "nat \<Rightarrow> ('s world \<Rightarrow> (exn + 'a) \<times> 's world) \<Rightarrow> 's world \<Rightarrow> (exn + 'a) \<times> 's world" where
  "retry_loop 0 f w = f w"
| "retry_loop (Suc n) f w =
     (case f w of
        (Inr a, w1) \<Rightarrow> (Inr a, w1)
      | (Inl e, w1) \<Rightarrow> retry_loop n f (w1\<lparr>trace := trace w1 @ [RetryWait]\<rparr>))"

definition retry ::
  "nat \<Rightarrow> ('s world \<Rightarrow> (exn + 'a) \<times> 's world) \<Rightarrow> 's world \<Rightarrow> (exn + 'a) \<times> 's world" where
  "retry stop_max_attempt_number f = retry_loop (stop_max_attempt_number - 1) f"

definition embedding_model_arn :: "'a kb_self_scheme \<Rightarrow> string" where
  "embedding_model_arn self =
     ''arn:aws:bedrock:'' @ region_name self @ ''::foundation-model/'' @ embedding_model self"

text \<open>The first handler of the knowledge-base \<^verbatim>\<open>try\<close>, \<^verbatim>\<open>except Exception as e\<close>: it fetches
  the role and its attached policies for printing, then re-raises \<open>e\<close>.\<close>

definition report_role_and_reraise ::
  "'s server \<Rightarrow> 'a kb_self_scheme \<Rightarrow> exn \<Rightarrow> 's world \<Rightarrow> (exn + knowledge_base_rec) \<times> 's world" where
  "report_role_and_reraise srv self e w =
     (case call srv (GetRole (kb_execution_role_name self)) w of
        (Inl e', w1) \<Rightarrow> (Inl e', w1)
      | (Inr role_details, w1) \<Rightarrow>
          (case Role_of role_details of
             Inl e' \<Rightarrow> (Inl e', w1)
           | Inr _ \<Rightarrow>
               (case call srv (ListAttachedRolePolicies (kb_execution_role_name self)) w1 of
                  (Inl e', w2) \<Rightarrow> (Inl e', w2)
                | (Inr _, w2) \<Rightarrow> (Inl e, w2))))"

text \<open>The second handler, \<^verbatim>\<open>except ...ConflictException\<close>: list the knowledge bases, keep
  the id of the last summary whose name is \<^verbatim>\<open>self.kb_name\<close> (\<^verbatim>\<open>None\<close> when there is
  none), and fetch that knowledge base.\<close>

definition find_kb_id :: "string \<Rightarrow> (string \<times> string) list \<Rightarrow> string option" where
  "find_kb_id name summaries =
     foldl (\<lambda>kb_id kb. if fst kb = name then Some (snd kb) else kb_id) None summaries"

definition adopt_knowledge_base ::
  "'s server \<Rightarrow> 'a kb_self_scheme \<Rightarrow> exn \<Rightarrow> 's world \<Rightarrow> (exn + knowledge_base_rec) \<times> 's world" where
  "adopt_knowledge_base srv self e w =
     (case call srv (ListKnowledgeBases 100) w of
        (Inl e', w1) \<Rightarrow> (Inl e', w1)
      | (Inr kbs, w1) \<Rightarrow>
          (case kbs of
             KnowledgeBaseSummaries summaries \<Rightarrow>
               (case call srv (GetKnowledgeBase (find_kb_id (kb_name self) summaries)) w1 of
                  (Inl e', w2) \<Rightarrow> (Inl e', w2)
                | (Inr response, w2) \<Rightarrow> (knowledgeBase_of response, w2))
           | _ \<Rightarrow> (Inl KeyError, w1)))"

text \<open>The knowledge-base \<^verbatim>\<open>try\<close> statement, its two \<^verbatim>\<open>except\<close> clauses in the order of the
  source.  The constant members of the request (\<^verbatim>\<open>type\<close> \<^verbatim>\<open>VECTOR\<close>, storage type
  \<^verbatim>\<open>S3_VECTORS\<close>) are not repeated in the request's arguments.\<close>

definition create_kb_or_get ::
  "'s server \<Rightarrow> 'a kb_self_scheme \<Rightarrow> role_rec \<Rightarrow> string \<Rightarrow> string \<Rightarrow> 's world
     \<Rightarrow> (exn + knowledge_base_rec) \<times> 's world" where
  "create_kb_or_get srv self role vb_arn ix_arn w =
     (let clauses =
            [(is_Exception, report_role_and_reraise srv self),
             (\<lambda>e. e = ConflictException, adopt_knowledge_base srv self)]
      in case call srv
            (CreateKnowledgeBase (kb_name self) (kb_description self) (RoleArn role)
               (embedding_model_arn self) vb_arn ix_arn) w of
           (Inl e, w1) \<Rightarrow> handle clauses e w1
         | (Inr create_kb_response, w1) \<Rightarrow>
             (case knowledgeBase_of create_kb_response of
                Inl e \<Rightarrow> handle clauses e w1
              | Inr kb \<Rightarrow> (Inr kb, w1)))"

text \<open>The data-source \<^verbatim>\<open>try\<close> statement; the chunking configuration is \<^verbatim>\<open>FIXED_SIZE\<close> with
  \<^verbatim>\<open>maxTokens\<close> 300 and \<^verbatim>\<open>overlapPercentage\<close> 20.\<close>

definition create_ds_or_get ::
  "'s server \<Rightarrow> 'a kb_self_scheme \<Rightarrow> knowledge_base_rec \<Rightarrow> 's world
     \<Rightarrow> (exn + data_source_rec) \<times> 's world" where
  "create_ds_or_get srv self kb w =
     (case call srv
         (CreateDataSource (kb_name self) (kb_description self) (knowledgeBaseId kb)
            ''CUSTOM'' 300 20) w of
        (Inr create_ds_response, w1) \<Rightarrow> (dataSource_of create_ds_response, w1)
      | (Inl e, w1) \<Rightarrow>
          if e = ConflictException then
            (case call srv (ListDataSources (knowledgeBaseId kb) 100) w1 of
               (Inl e', w2) \<Rightarrow> (Inl e', w2)
             | (Inr listing, w2) \<Rightarrow>
                 (case listing of
                    DataSourceSummaries ids \<Rightarrow>
                      (case ids of
                         [] \<Rightarrow> (Inl IndexError, w2)
                       | ds_id # _ \<Rightarrow>
                           (case call srv (GetDataSource ds_id (knowledgeBaseId kb)) w2 of
                              (Inl e', w3) \<Rightarrow> (Inl e', w3)
                            | (Inr get_ds_response, w3) \<Rightarrow> (dataSource_of get_ds_response, w3)))
                  | _ \<Rightarrow> (Inl KeyError, w2)))
          else (Inl e, w1))"

text \<open>The body of \<^verbatim>\<open>create_knowledge_base\<close>, and the method as decorated:
  \<^verbatim>\<open>@retry(wait_random_min=1000, wait_random_max=2000, stop_max_attempt_number=7)\<close>.\<close>

definition create_knowledge_base_body ::
  "'s server \<Rightarrow> 'a kb_self_scheme \<Rightarrow> role_rec \<Rightarrow> string \<Rightarrow> string \<Rightarrow> 's world
     \<Rightarrow> (exn + knowledge_base_rec \<times> data_source_rec) \<times> 's world" where
  "create_knowledge_base_body srv self role vb_arn ix_arn w =
     (case create_kb_or_get srv self role vb_arn ix_arn w of
        (Inl e, w1) \<Rightarrow> (Inl e, w1)
      | (Inr kb, w1) \<Rightarrow>
          (case create_ds_or_get srv self kb w1 of
             (Inl e, w2) \<Rightarrow> (Inl e, w2)
           | (Inr ds, w2) \<Rightarrow> (Inr (kb, ds), w2)))"

definition create_knowledge_base ::
  "'s server \<Rightarrow> 'a kb_self_scheme \<Rightarrow> role_rec \<Rightarrow> string \<Rightarrow> string \<Rightarrow> 's world
     \<Rightarrow> (exn + knowledge_base_rec \<times> data_source_rec) \<times> 's world" where
  "create_knowledge_base srv self role vb_arn ix_arn =
     retry 7 (create_knowledge_base_body srv self role vb_arn ix_arn)"

text \<open>\<^verbatim>\<open>__init__\<close>.  \<open>region\<close> is what \<^verbatim>\<open>os.getenv('AWS_REGION') or boto3_session.region_name\<close>
  evaluates to.  Creating the clients is local; \<^verbatim>\<open>get_caller_identity\<close> is the first
  request, and it is sent before the embedding model is compared with the allow-list.\<close>

definition BedrockKnowledgeBase_init ::
  "'s server \<Rightarrow> string \<Rightarrow> string \<Rightarrow> string option \<Rightarrow> string option \<Rightarrow> string \<Rightarrow> 's world
     \<Rightarrow> (exn + kb_object) \<times> 's world" where
  "BedrockKnowledgeBase_init srv region name description data_bucket_name model w =
     (case call srv GetCallerIdentity w of
        (Inl e, w0) \<Rightarrow> (Inl e, w0)
      | (Inr identity, w0) \<Rightarrow>
          (let account = (case identity of CallerIdentity a \<Rightarrow> a | _ \<Rightarrow> None);
               sfx = take 4 (str account)
           in if model \<notin> set valid_embedding_models then (Inl ValueError, w0)
              else
                (let self = \<lparr>region_name = region, account_number = account, suffix = sfx,
                       kb_name = name, kb_description = description,
                       bucket_name =
                         (case data_bucket_name of Some b \<Rightarrow> b | None \<Rightarrow> name @ ''-'' @ sfx),
                       embedding_model = model,
                       kb_execution_role_name =
                         ''AmazonBedrockExecutionRoleForKnowledgeBase_'' @ sfx,
                       fm_policy_name =
                         ''AmazonBedrockFoundationModelPolicyForKnowledgeBase_'' @ sfx,
                       s3_policy_name = ''AmazonBedrockS3PolicyForKnowledgeBase_'' @ sfx\<rparr>
                 in case create_s3_bucket srv self w0 of
                      (Inl e, w1) \<Rightarrow> (Inl e, w1)
                    | (Inr _, w1) \<Rightarrow>
                 (case create_s3_vector_resources srv self w1 of
                      (Inl e, w2) \<Rightarrow> (Inl e, w2)
                    | (Inr (vb_name, ix_name, vb_arn, ix_arn), w2) \<Rightarrow>
                 (case create_bedrock_kb_execution_role srv self w2 of
                      (Inl e, w3) \<Rightarrow> (Inl e, w3)
                    | (Inr role, w3) \<Rightarrow>
                 (case create_knowledge_base srv self role vb_arn ix_arn w3 of
                      (Inl e, w4) \<Rightarrow> (Inl e, w4)
                    | (Inr (kb, ds), w4) \<Rightarrow>
                        (Inr \<lparr>region_name = region_name self,
                              account_number = account_number self, suffix = suffix self,
                              kb_name = kb_name self, kb_description = kb_description self,
                              bucket_name = bucket_name self,
                              embedding_model = embedding_model self,
                              kb_execution_role_name = kb_execution_role_name self,
                              fm_policy_name = fm_policy_name self,
                              s3_policy_name = s3_policy_name self,
                              vector_bucket_name = vb_name, vector_index_name = ix_name,
                              vector_bucket_arn = vb_arn, vector_index_arn = ix_arn,
                              bedrock_kb_execution_role = role,
                              knowledge_base = kb, data_source = ds\<rparr>, w4)))))))"

section \<open>Bulk ingestion job\<close>

text \<open>\<^verbatim>\<open>start_ingestion_job\<close>.  The \<^verbatim>\<open>while\<close> loop has no counter and no sleep, so it is a
  partial function: \<open>None\<close> is the loop running forever.\<close>

partial_function (option) poll_ingestion_job ::
  "'s server \<Rightarrow> string \<Rightarrow> string \<Rightarrow> ingestion_job \<Rightarrow> 's world
     \<Rightarrow> ((exn + ingestion_job) \<times> 's world) option" where
  "poll_ingestion_job srv kb_id ds_id job w =
     (if job_status job \<noteq> ''COMPLETE'' then
        (case call srv (GetIngestionJob kb_id ds_id (ingestionJobId job)) w of
           (Inl e, w1) \<Rightarrow> Some (Inl e, w1)
         | (Inr get_job_response, w1) \<Rightarrow>
             (case ingestionJob_of get_job_response of
                Inl e \<Rightarrow> Some (Inl e, w1)
              | Inr job' \<Rightarrow> poll_ingestion_job srv kb_id ds_id job' w1))
      else Some (Inr job, w))"

definition start_ingestion_job ::
  "'s server \<Rightarrow> kb_object \<Rightarrow> 's world \<Rightarrow> ((exn + unit) \<times> 's world) option" where
  "start_ingestion_job srv self w =
     (let kb_id = knowledgeBaseId (knowledge_base self);
          ds_id = dataSourceId (data_source self)
      in case call srv (StartIngestionJob kb_id ds_id) w of
           (Inl e, w1) \<Rightarrow> Some (Inl e, w1)
         | (Inr start_job_response, w1) \<Rightarrow>
             (case ingestionJob_of start_job_response of
                Inl e \<Rightarrow> Some (Inl e, w1)
              | Inr job \<Rightarrow>
                  (case poll_ingestion_job srv kb_id ds_id job w1 of
                     None \<Rightarrow> None
                   | Some (Inl e, w2) \<Rightarrow> Some (Inl e, w2)
                   | Some (Inr _, w2) \<Rightarrow> Some (Inr (), interactive_sleep 40 w2))))"

section \<open>Teardown\<close>

text \<open>\<^verbatim>\<open>delete_s3\<close>: the \<^verbatim>\<open>for\<close> loop over \<^verbatim>\<open>objects['Contents']\<close>, then the bucket.\<close>

fun delete_objects ::
  "'s server \<Rightarrow> string \<Rightarrow> string list \<Rightarrow> 's world \<Rightarrow> (exn + unit) \<times> 's world" where
  "delete_objects srv bucket [] w = (Inr (), w)"
| "delete_objects srv bucket (key # keys) w =
     (case call srv (DeleteObject bucket key) w of
        (Inl e, w1) \<Rightarrow> (Inl e, w1)
      | (Inr _, w1) \<Rightarrow> delete_objects srv bucket keys w1)"

definition delete_s3 ::
  "'s server \<Rightarrow> 'a kb_self_scheme \<Rightarrow> 's world \<Rightarrow> (exn + unit) \<times> 's world" where
  "delete_s3 srv self w =
     (case call srv (ListObjects (bucket_name self)) w of
        (Inl e, w1) \<Rightarrow> (Inl e, w1)
      | (Inr objects, w1) \<Rightarrow>
          (case delete_objects srv (bucket_name self)
                  (case objects of Objects (Some contents) \<Rightarrow> contents | _ \<Rightarrow> []) w1 of
             (Inl e, w2) \<Rightarrow> (Inl e, w2)
           | (Inr _, w2) \<Rightarrow>
               (case call srv (DeleteBucket (bucket_name self)) w2 of
                  (Inl e, w3) \<Rightarrow> (Inl e, w3)
                | (Inr _, w3) \<Rightarrow> (Inr (), w3))))"

definition delete_iam_roles_and_policies ::
  "'s server \<Rightarrow> 'a kb_self_scheme \<Rightarrow> 's world \<Rightarrow> (exn + nat) \<times> 's world" where
  "delete_iam_roles_and_policies srv self w =
     (let fm_policy_arn = policy_arn (account_number self) (fm_policy_name self);
          s3_policy_arn = policy_arn (account_number self) (s3_policy_name self)
      in case call srv (DetachRolePolicy (kb_execution_role_name self) s3_policy_arn) w of
           (Inl e, w1) \<Rightarrow> (Inl e, w1)
         | (Inr _, w1) \<Rightarrow>
        (case call srv (DetachRolePolicy (kb_execution_role_name self) fm_policy_arn) w1 of
           (Inl e, w2) \<Rightarrow> (Inl e, w2)
         | (Inr _, w2) \<Rightarrow>
        (case call srv (DeleteRole (kb_execution_role_name self)) w2 of
           (Inl e, w3) \<Rightarrow> (Inl e, w3)
         | (Inr _, w3) \<Rightarrow>
        (case call srv (DeletePolicy s3_policy_arn) w3 of
           (Inl e, w4) \<Rightarrow> (Inl e, w4)
         | (Inr _, w4) \<Rightarrow>
        (case call srv (DeletePolicy fm_policy_arn) w4 of
           (Inl e, w5) \<Rightarrow> (Inl e, w5)
         | (Inr _, w5) \<Rightarrow> (Inr 0, w5))))))"

text \<open>\<^verbatim>\<open>delete_kb(delete_s3_bucket, delete_iam_roles_and_policies)\<close>: no statement of it is
  inside a \<^verbatim>\<open>try\<close>.\<close>

definition delete_kb ::
  "'s server \<Rightarrow> kb_object \<Rightarrow> bool \<Rightarrow> bool \<Rightarrow> 's world \<Rightarrow> (exn + unit) \<times> 's world" where
  "delete_kb srv self delete_s3_bucket delete_iam w =
     (case call srv
         (DeleteDataSource (dataSourceId (data_source self))
            (knowledgeBaseId (knowledge_base self))) w of
        (Inl e, w1) \<Rightarrow> (Inl e, w1)
      | (Inr _, w1) \<Rightarrow>
     (case call srv (DeleteKnowledgeBase (knowledgeBaseId (knowledge_base self))) w1 of
        (Inl e, w2) \<Rightarrow> (Inl e, w2)
      | (Inr _, w2) \<Rightarrow>
     (case (if delete_s3_bucket then delete_s3 srv self w2 else (Inr (), w2)) of
        (Inl e, w3) \<Rightarrow> (Inl e, w3)
      | (Inr _, w3) \<Rightarrow>
     (case (if delete_iam then delete_iam_roles_and_policies srv self w3 else (Inr 0, w3)) of
        (Inl e, w4) \<Rightarrow> (Inl e, w4)
      | (Inr _, w4) \<Rightarrow> (Inr (), w4)))))"

section \<open>Per-document ingestion: \<^verbatim>\<open>create_knowledge_base_s3vectors.py\<close>\<close>

text \<open>One pass of the inner \<^verbatim>\<open>try\<close> of the polling loop.  \<open>Some b\<close>: the function returns
  \<open>b\<close>; \<open>None\<close>: the loop goes on (no details, a status that is neither \<^verbatim>\<open>INDEXED\<close> nor
  \<^verbatim>\<open>FAILED\<close>, or an exception, which the inner \<^verbatim>\<open>except Exception\<close> only prints).\<close>

definition check_document_status ::
  "'s server \<Rightarrow> string \<Rightarrow> string \<Rightarrow> string \<Rightarrow> 's world \<Rightarrow> (exn + bool option) \<times> 's world" where
  "check_document_status srv knowledge_base_id data_source_id doc_id w =
     (let clauses = [(is_Exception, \<lambda>e w'. (Inr None, w'))]
      in case call srv (GetKnowledgeBaseDocuments knowledge_base_id data_source_id [doc_id]) w of
           (Inl e, w1) \<Rightarrow> handle clauses e w1
         | (Inr get_response, w1) \<Rightarrow>
             (case get_response of
                DocumentDetails details \<Rightarrow>
                  (case details of
                     [] \<Rightarrow> (Inr None, w1)
                   | status # _ \<Rightarrow>
                       if status = ''INDEXED'' then (Inr (Some True), w1)
                       else if status = ''FAILED'' then (Inr (Some False), w1)
                       else (Inr None, w1))
              | _ \<Rightarrow> handle clauses KeyError w1))"

text \<open>The loop \<^verbatim>\<open>while waited < max_wait\<close>, and the \<^verbatim>\<open>return False\<close> after it.\<close>

function poll_document_status ::
  "'s server \<Rightarrow> string \<Rightarrow> string \<Rightarrow> string \<Rightarrow> nat \<Rightarrow> nat \<Rightarrow> 's world \<Rightarrow> (exn + bool) \<times> 's world" where
  "poll_document_status srv knowledge_base_id data_source_id doc_id max_wait waited w =
     (if waited < max_wait then
        (case check_document_status srv knowledge_base_id data_source_id doc_id (sleep 5 w) of
           (Inl e, w1) \<Rightarrow> (Inl e, w1)
         | (Inr (Some result), w1) \<Rightarrow> (Inr result, w1)
         | (Inr None, w1) \<Rightarrow>
             poll_document_status srv knowledge_base_id data_source_id doc_id max_wait
               (waited + 5) w1)
      else (Inr False, w))"
  by pat_completeness auto
termination
  by (relation "measure (\<lambda>(srv, kb, ds, d, max_wait, waited, w). max_wait - waited)") auto

text \<open>\<^verbatim>\<open>ingest_single_document\<close>.  The descriptor \<^verbatim>\<open>doc\<close> is built from \<^verbatim>\<open>doc_id\<close> and
  \<^verbatim>\<open>s3_uri\<close> alone; the parameter \<^verbatim>\<open>metadata\<close> occurs nowhere in the body.\<close>

definition ingest_single_document ::
  "'s server \<Rightarrow> string \<Rightarrow> string \<Rightarrow> string \<Rightarrow> string \<Rightarrow> metadata \<Rightarrow> 's world
     \<Rightarrow> (exn + bool) \<times> 's world" where
  "ingest_single_document srv knowledge_base_id data_source_id s3_uri doc_id metadata w =
     (let doc = \<lparr>customDocumentIdentifier = doc_id, s3Location = s3_uri,
                 sourceType = ''S3_LOCATION'', dataSourceType = ''CUSTOM'',
                 doc_metadata = None\<rparr>;
          clauses = [(is_Exception, \<lambda>e w'. (Inr False, w'))]
      in case call srv (IngestKnowledgeBaseDocuments data_source_id [doc] knowledge_base_id) w of
           (Inl e, w1) \<Rightarrow> handle clauses e w1
         | (Inr response, w1) \<Rightarrow>
             (case response of
                DocumentDetails details \<Rightarrow>
                  (case details of
                     [] \<Rightarrow> handle clauses IndexError w1
                   | doc_detail # _ \<Rightarrow>
                       (case poll_document_status srv knowledge_base_id data_source_id doc_id
                               60 0 w1 of
                          (Inl e, w2) \<Rightarrow> handle clauses e w2
                        | (Inr result, w2) \<Rightarrow> (Inr result, w2)))
              | _ \<Rightarrow> handle clauses KeyError w1))"

text \<open>\<^verbatim>\<open>re.sub(r'[\s-]+', '-', s)\<close>: every maximal run of whitespace and hyphens becomes
  one hyphen.  On a \<^verbatim>\<open>str\<close> pattern \<^verbatim>\<open>\s\<close> is Unicode whitespace: of the code points up to
  U+00FF these are 9 to 13, 28 to 32, 133 (next line) and 160 (no-break space).\<close>

definition is_space_or_hyphen :: "char \<Rightarrow> bool" where
  "is_space_or_hyphen c =
     (let n = (of_char c :: nat)
      in (9 \<le> n \<and> n \<le> 13) \<or> (28 \<le> n \<and> n \<le> 32) \<or> n = 133 \<or> n = 160 \<or> n = 45)"

function re_sub_hyphen :: "string \<Rightarrow> string" where
  "re_sub_hyphen [] = []"
| "re_sub_hyphen (c # cs) =
     (if is_space_or_hyphen c then CHR ''-'' # re_sub_hyphen (dropWhile is_space_or_hyphen cs)
      else c # re_sub_hyphen cs)"
  by pat_completeness auto
termination
  by (relation "measure length") (auto simp: length_dropWhile_le less_Suc_eq_le)

text \<open>\<^verbatim>\<open>os.path.splitext(p)[0]\<close> of \<^verbatim>\<open>posixpath\<close>: the path up to its last dot, when that dot
  comes after the last slash and after a character of the file name that is not a dot;
  the whole path otherwise.  \<open>rfind\<close> is \<^verbatim>\<open>str.rfind\<close> (\<open>-1\<close> when absent).\<close>

fun rfind_from :: "char \<Rightarrow> string \<Rightarrow> nat \<Rightarrow> int \<Rightarrow> int" where
  "rfind_from c [] i found = found"
| "rfind_from c (x # xs) i found = rfind_from c xs (Suc i) (if x = c then int i else found)"

definition rfind :: "char \<Rightarrow> string \<Rightarrow> int" where
  "rfind c p = rfind_from c p 0 (- 1)"

definition splitext_root :: "string \<Rightarrow> string" where
  "splitext_root p =
     (let sepIndex = rfind (CHR ''/'') p;
          dotIndex = rfind (CHR ''.'') p
      in if dotIndex > sepIndex \<and>
            list_ex (\<lambda>c. c \<noteq> CHR ''.'')
              (take (nat (dotIndex - (sepIndex + 1))) (drop (nat (sepIndex + 1)) p))
         then take (nat dotIndex) p
         else p)"

definition metadata_map :: "string \<Rightarrow> metadata option" where
  "metadata_map =
     map_of
       [(''cat-food-wikipedia.pdf'', [(''animal'', [''cat'']), (''topic'', [''food''])]),
        (''cat-play-and-toys-wikipedia.pdf'',
           [(''animal'', [''cat'']), (''topic'', [''play'', ''toys''])]),
        (''dog-food-wikipedia.pdf'', [(''animal'', [''dog'']), (''topic'', [''food''])]),
        (''dog-grooming-wikipedia.pdf'', [(''animal'', [''dog'']), (''topic'', [''grooming''])])]"

definition s3_uri_of :: "string \<Rightarrow> string \<Rightarrow> string" where
  "s3_uri_of s3_bucket kb_file = ''s3://'' @ s3_bucket @ ''/'' @ kb_file"

definition doc_id_of :: "string \<Rightarrow> string" where
  "doc_id_of kb_file = lower (splitext_root (re_sub_hyphen kb_file))"

definition metadata_of :: "string \<Rightarrow> metadata" where
  "metadata_of kb_file = (case metadata_map kb_file of Some m \<Rightarrow> m | None \<Rightarrow> [])"

text \<open>The \<^verbatim>\<open>for kb_file in kb_files\<close> loop with its \<^verbatim>\<open>break\<close>, and
  \<^verbatim>\<open>ingest_knowledge_base_documents\<close>; \<open>listing\<close> is what \<^verbatim>\<open>os.listdir(kb_folder)\<close> returns.\<close>

fun ingest_loop ::
  "'s server \<Rightarrow> string \<Rightarrow> string \<Rightarrow> string \<Rightarrow> string list \<Rightarrow> nat \<Rightarrow> nat \<Rightarrow> 's world
     \<Rightarrow> (exn + nat \<times> nat) \<times> 's world" where
  "ingest_loop srv knowledge_base_id data_source_id s3_bucket [] success_count fail_count w =
     (Inr (success_count, fail_count), w)"
| "ingest_loop srv knowledge_base_id data_source_id s3_bucket (kb_file # kb_files)
     success_count fail_count w =
     (case ingest_single_document srv knowledge_base_id data_source_id
             (s3_uri_of s3_bucket kb_file) (doc_id_of kb_file) (metadata_of kb_file) w of
        (Inl e, w1) \<Rightarrow> (Inl e, w1)
      | (Inr indexed, w1) \<Rightarrow>
          if indexed then
            ingest_loop srv knowledge_base_id data_source_id s3_bucket kb_files
              (success_count + 1) fail_count w1
          else (Inr (success_count, fail_count + 1), w1))"

definition ingest_knowledge_base_documents ::
  "'s server \<Rightarrow> string \<Rightarrow> string \<Rightarrow> string \<Rightarrow> string list \<Rightarrow> 's world
     \<Rightarrow> (exn + nat \<times> nat) \<times> 's world" where
  "ingest_knowledge_base_documents srv knowledge_base_id data_source_id s3_bucket listing w =
     ingest_loop srv knowledge_base_id data_source_id s3_bucket
       (filter (\<lambda>file. endswith file ''.pdf'') listing) 0 0 w"

section \<open>Services for concrete runs\<close>

text \<open>Three services on which the code is run at concrete inputs.  \<open>scripted\<close> answers
  the requests with a prepared list of answers, in order, whatever the request (and with a
  connection error once the list is used up); \<open>always\<close> gives every request the same
  answer.\<close>

definition scripted :: "(exn + response) list server" where
  "scripted s c = (case s of [] \<Rightarrow> (Inl BotoCoreError, []) | r # rs \<Rightarrow> (r, rs))"

definition always :: "(exn + response) \<Rightarrow> unit server" where
  "always r s c = (r, s)"

text \<open>\<open>cloud_step\<close> is a small account: it remembers the names that exist, answers a
  creation of an existing name with the already-exists exception that the handlers of the
  code name (\<^verbatim>\<open>ConflictException\<close>, \<^verbatim>\<open>EntityAlreadyExistsException\<close>), a lookup of a missing
  name with a client error, and does not serve the ingestion requests.\<close>

record cloud_state =
  cs_account :: string
  cs_buckets :: "(string \<times> string list) list"
  cs_vector_buckets :: "string list"
  cs_indexes :: "(string \<times> string) list"
  cs_policies :: "string list"
  cs_roles :: "string list"
  cs_knowledge_bases :: "(string \<times> string) list"
  cs_data_sources :: "(string \<times> string) list"

definition role_of_name :: "cloud_state \<Rightarrow> string \<Rightarrow> role_rec" where
  "role_of_name s name =
     \<lparr>RoleName = name, RoleArn = ''arn:aws:iam::'' @ cs_account s @ '':role/'' @ name\<rparr>"

definition if_exists :: "bool \<Rightarrow> response \<Rightarrow> cloud_state \<Rightarrow> (exn + response) \<times> cloud_state" where
  "if_exists b r s = (if b then (Inr r, s) else (Inl ClientError, s))"

fun cloud_step :: "cloud_state server" where
  "cloud_step s GetCallerIdentity = (Inr (CallerIdentity (Some (cs_account s))), s)"
| "cloud_step s (HeadBucket b) = if_exists (b \<in> set (map fst (cs_buckets s))) Done s"
| "cloud_step s (CreateBucket b loc) =
     (if b \<in> set (map fst (cs_buckets s)) then (Inl ClientError, s)
      else (Inr Done, s\<lparr>cs_buckets := (b, []) # cs_buckets s\<rparr>))"
| "cloud_step s (CreateVectorBucket vb) =
     (if vb \<in> set (cs_vector_buckets s) then (Inl ConflictException, s)
      else (Inr (VectorBucket (''arn:aws:s3vectors:::bucket/'' @ vb)),
            s\<lparr>cs_vector_buckets := vb # cs_vector_buckets s\<rparr>))"
| "cloud_step s (GetVectorBucket vb) =
     if_exists (vb \<in> set (cs_vector_buckets s))
       (VectorBucket (''arn:aws:s3vectors:::bucket/'' @ vb)) s"
| "cloud_step s (CreateIndex vb ix d ty metric) =
     (if (vb, ix) \<in> set (cs_indexes s) then (Inl ConflictException, s)
      else if vb \<notin> set (cs_vector_buckets s) then (Inl ClientError, s)
      else (Inr (Index (''arn:aws:s3vectors:::bucket/'' @ vb @ ''/index/'' @ ix)),
            s\<lparr>cs_indexes := (vb, ix) # cs_indexes s\<rparr>))"
| "cloud_step s (GetIndex vb ix) =
     if_exists ((vb, ix) \<in> set (cs_indexes s))
       (Index (''arn:aws:s3vectors:::bucket/'' @ vb @ ''/index/'' @ ix)) s"
| "cloud_step s (CreatePolicy name doc descr) =
     (let arn = ''arn:aws:iam::'' @ cs_account s @ '':policy/'' @ name
      in if arn \<in> set (cs_policies s) then (Inl EntityAlreadyExistsException, s)
         else (Inr (Policy arn), s\<lparr>cs_policies := arn # cs_policies s\<rparr>))"
| "cloud_step s (GetPolicy arn) = if_exists (arn \<in> set (cs_policies s)) (Policy arn) s"
| "cloud_step s (CreatePolicyVersion arn doc dflt) =
     if_exists (arn \<in> set (cs_policies s)) Done s"
| "cloud_step s (CreateRole name doc descr dur) =
     (if name \<in> set (cs_roles s) then (Inl EntityAlreadyExistsException, s)
      else (Inr (Role (role_of_name s name)), s\<lparr>cs_roles := name # cs_roles s\<rparr>))"
| "cloud_step s (GetRole name) =
     if_exists (name \<in> set (cs_roles s)) (Role (role_of_name s name)) s"
| "cloud_step s (UpdateAssumeRolePolicy name doc) = if_exists (name \<in> set (cs_roles s)) Done s"
| "cloud_step s (AttachRolePolicy name arn) =
     if_exists (name \<in> set (cs_roles s) \<and> arn \<in> set (cs_policies s)) Done s"
| "cloud_step s (ListAttachedRolePolicies name) = if_exists (name \<in> set (cs_roles s)) Done s"
| "cloud_step s (CreateKnowledgeBase name descr role_arn model_arn vb_arn ix_arn) =
     (if name \<in> set (map fst (cs_knowledge_bases s)) then (Inl ConflictException, s)
      else (Inr (KnowledgeBase \<lparr>knowledgeBaseId = ''KB-'' @ name, kb_rec_name = name\<rparr>),
            s\<lparr>cs_knowledge_bases := cs_knowledge_bases s @ [(name, ''KB-'' @ name)]\<rparr>))"
| "cloud_step s (ListKnowledgeBases n) =
     (Inr (KnowledgeBaseSummaries (take n (cs_knowledge_bases s))), s)"
| "cloud_step s (GetKnowledgeBase kb_id) =
     (case kb_id of
        None \<Rightarrow> (Inl ClientError, s)
      | Some i \<Rightarrow>
          (case filter (\<lambda>kb. snd kb = i) (cs_knowledge_bases s) of
             [] \<Rightarrow> (Inl ClientError, s)
           | kb # _ \<Rightarrow> (Inr (KnowledgeBase \<lparr>knowledgeBaseId = i, kb_rec_name = fst kb\<rparr>), s)))"
| "cloud_step s (CreateDataSource name descr kb_id ty max_tokens overlap) =
     (if (kb_id, ''DS-'' @ name) \<in> set (cs_data_sources s) then (Inl ConflictException, s)
      else if kb_id \<notin> set (map snd (cs_knowledge_bases s)) then (Inl ClientError, s)
      else (Inr (DataSource \<lparr>dataSourceId = ''DS-'' @ name\<rparr>),
            s\<lparr>cs_data_sources := cs_data_sources s @ [(kb_id, ''DS-'' @ name)]\<rparr>))"
| "cloud_step s (ListDataSources kb_id n) =
     (Inr (DataSourceSummaries
             (take n (map snd (filter (\<lambda>d. fst d = kb_id) (cs_data_sources s))))), s)"
| "cloud_step s (GetDataSource ds_id kb_id) =
     if_exists ((kb_id, ds_id) \<in> set (cs_data_sources s))
       (DataSource \<lparr>dataSourceId = ds_id\<rparr>) s"
| "cloud_step s (DeleteDataSource ds_id kb_id) =
     (if (kb_id, ds_id) \<in> set (cs_data_sources s)
      then (Inr Done, s\<lparr>cs_data_sources := removeAll (kb_id, ds_id) (cs_data_sources s)\<rparr>)
      else (Inl ClientError, s))"
| "cloud_step s (DeleteKnowledgeBase kb_id) =
     (if kb_id \<in> set (map snd (cs_knowledge_bases s))
      then (Inr Done,
            s\<lparr>cs_knowledge_bases := filter (\<lambda>kb. snd kb \<noteq> kb_id) (cs_knowledge_bases s)\<rparr>)
      else (Inl ClientError, s))"
| "cloud_step s (ListObjects b) =
     (case map_of (cs_buckets s) b of
        None \<Rightarrow> (Inl ClientError, s)
      | Some keys \<Rightarrow> (Inr (Objects (if keys = [] then None else Some keys)), s))"
| "cloud_step s (DeleteObject b key) =
     (case map_of (cs_buckets s) b of
        None \<Rightarrow> (Inl ClientError, s)
      | Some keys \<Rightarrow>
          (Inr Done, s\<lparr>cs_buckets := AList.update b (removeAll key keys) (cs_buckets s)\<rparr>))"
| "cloud_step s (DeleteBucket b) =
     (if map_of (cs_buckets s) b = Some []
      then (Inr Done, s\<lparr>cs_buckets := AList.delete b (cs_buckets s)\<rparr>)
      else (Inl ClientError, s))"
| "cloud_step s (DetachRolePolicy name arn) = if_exists (name \<in> set (cs_roles s)) Done s"
| "cloud_step s (DeleteRole name) =
     (if name \<in> set (cs_roles s)
      then (Inr Done, s\<lparr>cs_roles := removeAll name (cs_roles s)\<rparr>)
      else (Inl ClientError, s))"
| "cloud_step s (DeletePolicy arn) =
     (if arn \<in> set (cs_policies s)
      then (Inr Done, s\<lparr>cs_policies := removeAll arn (cs_policies s)\<rparr>)
      else (Inl ClientError, s))"
| "cloud_step s (StartIngestionJob kb_id ds_id) = (Inl ClientError, s)"
| "cloud_step s (GetIngestionJob kb_id ds_id job_id) = (Inl ClientError, s)"
| "cloud_step s (IngestKnowledgeBaseDocuments ds_id docs kb_id) = (Inl ClientError, s)"
| "cloud_step s (GetKnowledgeBaseDocuments kb_id ds_id ids) = (Inl ClientError, s)"

text \<open>An account with nothing in it but an uploaded data bucket, as \<^verbatim>\<open>main\<close> leaves it
  before it constructs the knowledge base.\<close>

definition fresh_account :: "cloud_state world" where
  "fresh_account =
     \<lparr>cloud = \<lparr>cs_account = ''123456789012'',
               cs_buckets = [(''bedrock-kb-bucket-0a1b2c3d'', [''cat-food-wikipedia.pdf''])],
               cs_vector_buckets = [], cs_indexes = [], cs_policies = [], cs_roles = [],
               cs_knowledge_bases = [], cs_data_sources = []\<rparr>,
      trace = []\<rparr>"

section \<open>Observations on traces, and the worlds of the concrete runs\<close>

text \<open>What a theorem reads off a trace: the requests in order, the documents carried by
  the ingest requests, the answers to the document-status polls, the seconds slept, and
  whether an answer to a poll reports a given status for the first document listed (the
  one entry the code looks at).\<close>

fun requests :: "event list \<Rightarrow> api_call list" where
  "requests [] = []"
| "requests (Call c r # evs) = c # requests evs"
| "requests (Sleep n # evs) = requests evs"
| "requests (RetryWait # evs) = requests evs"

fun submitted :: "event list \<Rightarrow> document list" where
  "submitted [] = []"
| "submitted (Call (IngestKnowledgeBaseDocuments ds docs kb) r # evs) = docs @ submitted evs"
| "submitted (ev # evs) = submitted evs"

fun polls :: "event list \<Rightarrow> (exn + response) list" where
  "polls [] = []"
| "polls (Call (GetKnowledgeBaseDocuments kb ds ids) r # evs) = r # polls evs"
| "polls (ev # evs) = polls evs"

fun slept :: "event list \<Rightarrow> nat" where
  "slept [] = 0"
| "slept (Sleep n # evs) = n + slept evs"
| "slept (ev # evs) = slept evs"

fun reports :: "string \<Rightarrow> exn + response \<Rightarrow> bool" where
  "reports status (Inr (DocumentDetails (st # details))) = (st = status)"
| "reports status r = False"

text \<open>The events a run adds to the trace it started from.\<close>

definition added :: "'s world \<Rightarrow> 's world \<Rightarrow> event list" where
  "added w w' = drop (length (trace w)) (trace w')"

text \<open>The answers the service gives to \<open>n\<close> successive requests \<open>c\<close>, from the state \<open>s\<close>
  on.\<close>

fun answers :: "'s server \<Rightarrow> api_call \<Rightarrow> 's \<Rightarrow> nat \<Rightarrow> (exn + response) list" where
  "answers srv c s 0 = []"
| "answers srv c s (Suc n) = fst (srv s c) # answers srv c (snd (srv s c)) n"

text \<open>An answer to a poll is \<open>pending\<close> when it reports neither \<^verbatim>\<open>INDEXED\<close> nor \<^verbatim>\<open>FAILED\<close>: an
  exception, an answer of another shape or without details, or any other status.  An
  answer to the submission is \<open>accepted\<close> when it carries document details, at least
  one.\<close>

definition pending :: "exn + response \<Rightarrow> bool" where
  "pending r = (\<not> reports ''INDEXED'' r \<and> \<not> reports ''FAILED'' r)"

fun accepted :: "exn + response \<Rightarrow> bool" where
  "accepted (Inr (DocumentDetails (d # details))) = True"
| "accepted r = False"

text \<open>The events of polls \<open>c\<close> with the answers \<open>rs\<close>: a sleep of 5, then the request.\<close>

fun poll_events :: "api_call \<Rightarrow> (exn + response) list \<Rightarrow> event list" where
  "poll_events c [] = []"
| "poll_events c (r # rs) = Sleep 5 # Call c r # poll_events c rs"

text \<open>A run for C3 in which a poll reports \<^verbatim>\<open>FAILED\<close>: the submission is accepted, the
  first poll sees \<^verbatim>\<open>IN_PROGRESS\<close>, the second \<^verbatim>\<open>FAILED\<close>; the polling stops there.\<close>

definition failing_script :: "(exn + response) list world" where
  "failing_script =
     \<lparr>cloud = [Inr (DocumentDetails [''STARTING'']),
               Inr (DocumentDetails [''IN_PROGRESS'']),
               Inr (DocumentDetails [''FAILED''])],
      trace = []\<rparr>"

text \<open>C3 as stated fails: here the first poll raises and the second reports
  \<^verbatim>\<open>INDEXED\<close>; an exception occurred during polling and the function returns \<open>True\<close>.\<close>

definition flaky_script :: "(exn + response) list world" where
  "flaky_script =
     \<lparr>cloud = [Inr (DocumentDetails [''STARTING'']),
               Inl ClientError,
               Inr (DocumentDetails [''INDEXED''])],
      trace = []\<rparr>"

abbreviation descriptor_of :: "string \<Rightarrow> string \<Rightarrow> document" where
  "descriptor_of s3_bucket kb_file \<equiv>
     \<lparr>customDocumentIdentifier = doc_id_of kb_file, s3Location = s3_uri_of s3_bucket kb_file,
      sourceType = ''S3_LOCATION'', dataSourceType = ''CUSTOM'', doc_metadata = None\<rparr>"

abbreviation ingest_file ::
  "'s server \<Rightarrow> string \<Rightarrow> string \<Rightarrow> string \<Rightarrow> string \<Rightarrow> 's world \<Rightarrow> (exn + bool) \<times> 's world" where
  "ingest_file srv kb ds s3_bucket kb_file \<equiv>
     ingest_single_document srv kb ds (s3_uri_of s3_bucket kb_file) (doc_id_of kb_file)
       (metadata_of kb_file)"

text \<open>A batch for C2: the folder lists three \<^verbatim>\<open>.pdf\<close> files and a text file; the first
  document is indexed at its first poll, the submission of the second raises.\<close>

definition batch_script :: "(exn + response) list world" where
  "batch_script =
     \<lparr>cloud = [Inr (DocumentDetails [''STARTING'']),
               Inr (DocumentDetails [''INDEXED'']),
               Inl ClientError],
      trace = []\<rparr>"

text \<open>The account as a completed run of the constructor leaves it (names \<^verbatim>\<open>pets-kb\<close> and
  the data bucket of \<open>fresh_account\<close>).\<close>

definition provisioned_account :: "cloud_state world" where
  "provisioned_account =
     \<lparr>cloud = \<lparr>cs_account = ''123456789012'',
               cs_buckets = [(''bedrock-kb-bucket-0a1b2c3d'', [''cat-food-wikipedia.pdf''])],
               cs_vector_buckets = [''pets-kb-vectors-1234''],
               cs_indexes = [(''pets-kb-vectors-1234'', ''pets-kb-index'')],
               cs_policies =
                 [''arn:aws:iam::123456789012:policy/AmazonBedrockS3PolicyForKnowledgeBase_1234'',
                  ''arn:aws:iam::123456789012:policy/AmazonBedrockFoundationModelPolicyForKnowledgeBase_1234''],
               cs_roles = [''AmazonBedrockExecutionRoleForKnowledgeBase_1234''],
               cs_knowledge_bases = [(''pets-kb'', ''KB-pets-kb'')],
               cs_data_sources = [(''KB-pets-kb'', ''DS-pets-kb'')]\<rparr>,
      trace = []\<rparr>"

definition pets_self :: kb_self where
  "pets_self =
     \<lparr>region_name = ''us-east-1'', account_number = Some ''123456789012'', suffix = ''1234'',
      kb_name = ''pets-kb'', kb_description = Some ''Pets'',
      bucket_name = ''bedrock-kb-bucket-0a1b2c3d'',
      embedding_model = ''amazon.titan-embed-text-v2:0'',
      kb_execution_role_name = ''AmazonBedrockExecutionRoleForKnowledgeBase_1234'',
      fm_policy_name = ''AmazonBedrockFoundationModelPolicyForKnowledgeBase_1234'',
      s3_policy_name = ''AmazonBedrockS3PolicyForKnowledgeBase_1234''\<rparr>"

definition pets_role :: role_rec where
  "pets_role =
     \<lparr>RoleName = ''AmazonBedrockExecutionRoleForKnowledgeBase_1234'',
      RoleArn = ''arn:aws:iam::123456789012:role/AmazonBedrockExecutionRoleForKnowledgeBase_1234''\<rparr>"

text \<open>The four steps of the constructor on the accounts of the two runs.  The steps read
  the state of the service only, so each is run from any world over that state.\<close>

definition with_vectors :: cloud_state where
  "with_vectors =
     (cloud fresh_account)
       \<lparr>cs_vector_buckets := [''pets-kb-vectors-1234''],
        cs_indexes := [(''pets-kb-vectors-1234'', ''pets-kb-index'')]\<rparr>"

definition with_role :: cloud_state where
  "with_role =
     with_vectors
       \<lparr>cs_policies :=
          [''arn:aws:iam::123456789012:policy/AmazonBedrockS3PolicyForKnowledgeBase_1234'',
           ''arn:aws:iam::123456789012:policy/AmazonBedrockFoundationModelPolicyForKnowledgeBase_1234''],
        cs_roles := [''AmazonBedrockExecutionRoleForKnowledgeBase_1234'']\<rparr>"

text \<open>The object keys that the listings of a trace returned (the \<^verbatim>\<open>Contents\<close> of the answers
  to \<^verbatim>\<open>list_objects\<close>), and the requests of the IAM step.\<close>

fun listed :: "event list \<Rightarrow> string list" where
  "listed [] = []"
| "listed (Call (ListObjects b) (Inr (Objects (Some keys))) # evs) = keys @ listed evs"
| "listed (ev # evs) = listed evs"

fun is_iam_request :: "api_call \<Rightarrow> bool" where
  "is_iam_request (DetachRolePolicy name arn) = True"
| "is_iam_request (DeleteRole name) = True"
| "is_iam_request (DeletePolicy arn) = True"
| "is_iam_request c = False"

text \<open>The object of the first run on \<open>fresh_account\<close>, and worlds for the teardown runs: a
  service that answers the first two deletions and then lists two objects, and one whose
  listing of the bucket fails.\<close>

definition pets_object :: kb_object where
  "pets_object =
     \<lparr>region_name = ''us-east-1'', account_number = Some ''123456789012'', suffix = ''1234'',
      kb_name = ''pets-kb'', kb_description = Some ''Pets'',
      bucket_name = ''bedrock-kb-bucket-0a1b2c3d'',
      embedding_model = ''amazon.titan-embed-text-v2:0'',
      kb_execution_role_name = ''AmazonBedrockExecutionRoleForKnowledgeBase_1234'',
      fm_policy_name = ''AmazonBedrockFoundationModelPolicyForKnowledgeBase_1234'',
      s3_policy_name = ''AmazonBedrockS3PolicyForKnowledgeBase_1234'',
      vector_bucket_name = ''pets-kb-vectors-1234'', vector_index_name = ''pets-kb-index'',
      vector_bucket_arn = ''arn:aws:s3vectors:::bucket/pets-kb-vectors-1234'',
      vector_index_arn = ''arn:aws:s3vectors:::bucket/pets-kb-vectors-1234/index/pets-kb-index'',
      bedrock_kb_execution_role = pets_role,
      knowledge_base = \<lparr>knowledgeBaseId = ''KB-pets-kb'', kb_rec_name = ''pets-kb''\<rparr>,
      data_source = \<lparr>dataSourceId = ''DS-pets-kb''\<rparr>\<rparr>"

definition teardown_script :: "(exn + response) list world" where
  "teardown_script =
     \<lparr>cloud = [Inr Done, Inr Done,
               Inr (Objects (Some [''cat-food-wikipedia.pdf'', ''dog-food-wikipedia.pdf''])),
               Inr Done, Inr Done, Inr Done,
               Inr Done, Inr Done, Inr Done, Inr Done, Inr Done],
      trace = []\<rparr>"

definition listing_fails_script :: "(exn + response) list world" where
  "listing_fails_script = \<lparr>cloud = [Inr Done, Inr Done, Inl ClientError], trace = []\<rparr>"

text \<open>The jobs that the answers of a trace carry, in order.\<close>

fun jobs :: "event list \<Rightarrow> ingestion_job list" where
  "jobs [] = []"
| "jobs (Call c (Inr (IngestionJob job)) # evs) = job # jobs evs"
| "jobs (ev # evs) = jobs evs"

fun is_job_poll :: "api_call \<Rightarrow> bool" where
  "is_job_poll (GetIngestionJob kb ds job_id) = True"
| "is_job_poll c = False"

text \<open>Two runs for C9: a job that is \<^verbatim>\<open>FAILED\<close> whenever it is fetched, and a job that is
  \<^verbatim>\<open>COMPLETE\<close> at the second poll.\<close>

definition failed_job :: ingestion_job where
  "failed_job = \<lparr>job_status = ''FAILED'', ingestionJobId = ''JOB1''\<rparr>"

definition completing_script :: "(exn + response) list world" where
  "completing_script =
     \<lparr>cloud = [Inr (IngestionJob \<lparr>job_status = ''STARTING'', ingestionJobId = ''JOB1''\<rparr>),
               Inr (IngestionJob \<lparr>job_status = ''IN_PROGRESS'', ingestionJobId = ''JOB1''\<rparr>),
               Inr (IngestionJob \<lparr>job_status = ''COMPLETE'', ingestionJobId = ''JOB1''\<rparr>)],
      trace = []\<rparr>"

text \<open>\<open>keeps P w w'\<close>: the world \<open>w'\<close> continues \<open>w\<close>, and every request sent since \<open>w\<close>
  satisfies \<open>P\<close>.  \<open>dimension_1024\<close>: the request is not the creation of an index, or it
  creates one of dimension 1024.\<close>

definition keeps :: "(api_call \<Rightarrow> bool) \<Rightarrow> 's world \<Rightarrow> 's world \<Rightarrow> bool" where
  "keeps P w w' = (\<exists>evs. trace w' = trace w @ evs \<and> list_all P (requests evs))"

fun dimension_1024 :: "api_call \<Rightarrow> bool" where
  "dimension_1024 (CreateIndex vb ix d ty metric) = (d = 1024)"
| "dimension_1024 c = True"



section \<open>Basic facts\<close>

lemma call_world:
  "call srv c w = (r, w') \<Longrightarrow>
     r = fst (srv (cloud w) c) \<and> cloud w' = snd (srv (cloud w) c) \<and>
     trace w' = trace w @ [Call c r]"
  by (auto simp: call_def split: prod.splits)

lemma added_refl [simp]: "added w w = []"
  by (simp add: added_def)

lemma added_append: "trace w' = trace w @ evs \<Longrightarrow> added w w' = evs"
  by (simp add: added_def)

lemma requests_append [simp]: "requests (xs @ ys) = requests xs @ requests ys"
  by (induction xs rule: requests.induct) auto

lemma submitted_append [simp]: "submitted (xs @ ys) = submitted xs @ submitted ys"
  by (induction xs rule: submitted.induct) auto

lemma polls_append [simp]: "polls (xs @ ys) = polls xs @ polls ys"
  by (induction xs rule: polls.induct) auto

lemma slept_append [simp]: "slept (xs @ ys) = slept xs + slept ys"
  by (induction xs rule: slept.induct) auto

lemma interactive_sleep_trace:
  "interactive_sleep n w = w\<lparr>trace := trace w @ replicate n (Sleep 1)\<rparr>"
proof (induction n arbitrary: w)
  case 0
  then show ?case by simp
next
  case (Suc n)
  show ?case
    by (simp add: Suc sleep_def replicate_app_Cons_same)
qed

section \<open>Per-document ingestion: what one call does\<close>

lemma check_document_status_cases:
  assumes "check_document_status srv kb ds doc_id w = (res, w')"
  shows "\<exists>a. trace w' = trace w @ [Call (GetKnowledgeBaseDocuments kb ds [doc_id]) a] \<and>
             res = Inr (if reports ''INDEXED'' a then Some True
                        else if reports ''FAILED'' a then Some False else None)"
proof -
  obtain a w1 where c: "call srv (GetKnowledgeBaseDocuments kb ds [doc_id]) w = (a, w1)"
    by (cases "call srv (GetKnowledgeBaseDocuments kb ds [doc_id]) w")
  have t: "trace w1 = trace w @ [Call (GetKnowledgeBaseDocuments kb ds [doc_id]) a]"
    using call_world [OF c] by simp
  show ?thesis
  proof (cases a)
    case (Inl e)
    with assms c t show ?thesis
      by (auto simp: check_document_status_def is_Exception_def)
  next
    case (Inr r)
    show ?thesis
    proof (cases r)
      case (DocumentDetails details)
      with assms c t Inr show ?thesis
        by (cases details) (auto simp: check_document_status_def is_Exception_def split: if_splits)
    qed (use assms c t Inr in \<open>auto simp: check_document_status_def is_Exception_def\<close>)
  qed
qed

declare poll_document_status.simps [simp del]

lemma poll_document_status_done:
  "\<not> waited < max_wait \<Longrightarrow>
     poll_document_status srv kb ds doc_id max_wait waited w = (Inr False, w)"
  by (subst poll_document_status.simps) simp

lemma poll_document_status_step:
  "waited < max_wait \<Longrightarrow> check_document_status srv kb ds doc_id (sleep 5 w) = (Inr r, w1) \<Longrightarrow>
     poll_document_status srv kb ds doc_id max_wait waited w =
       (case r of Some result \<Rightarrow> (Inr result, w1)
        | None \<Rightarrow> poll_document_status srv kb ds doc_id max_wait (waited + 5) w1)"
  by (subst poll_document_status.simps) (simp split: option.splits)

text \<open>The polling loop: it never raises; it returns \<open>True\<close> exactly when one of its polls
  reported \<^verbatim>\<open>INDEXED\<close>; a poll that reported \<^verbatim>\<open>FAILED\<close> makes it return \<open>False\<close>; every poll
  follows a sleep of 5; the polls fit into the window that is left; no document is
  submitted.\<close>

lemma poll_document_status_spec:
  assumes "poll_document_status srv kb ds doc_id max_wait waited w = (res, w')"
  shows "\<exists>evs b. trace w' = trace w @ evs \<and> res = Inr b \<and>
           (b \<longleftrightarrow> list_ex (reports ''INDEXED'') (polls evs)) \<and>
           (list_ex (reports ''FAILED'') (polls evs) \<longrightarrow> \<not> b) \<and>
           slept evs = 5 * length (polls evs) \<and>
           5 * length (polls evs) < max_wait - waited + 5 \<and>
           submitted evs = []"
  using assms
proof (induction srv kb ds doc_id max_wait waited w arbitrary: res w'
    rule: poll_document_status.induct)
  case (1 srv kb ds doc_id max_wait waited w)
  show ?case
  proof (cases "waited < max_wait")
    case False
    with "1.prems" show ?thesis by (simp add: poll_document_status_done)
  next
    case True
    obtain r1 w1 where chk: "check_document_status srv kb ds doc_id (sleep 5 w) = (r1, w1)"
      by (cases "check_document_status srv kb ds doc_id (sleep 5 w)")
    from check_document_status_cases [OF chk] obtain a where
      t1: "trace w1 = trace w @ [Sleep 5, Call (GetKnowledgeBaseDocuments kb ds [doc_id]) a]" and
      r1: "r1 = Inr (if reports ''INDEXED'' a then Some True
                      else if reports ''FAILED'' a then Some False else None)"
      by (auto simp: sleep_def)
    consider (indexed) "reports ''INDEXED'' a"
      | (failed) "\<not> reports ''INDEXED'' a" "reports ''FAILED'' a"
      | (pending) "\<not> reports ''INDEXED'' a" "\<not> reports ''FAILED'' a"
      by blast
    then show ?thesis
    proof cases
      case indexed
      then have nf: "\<not> reports ''FAILED'' a"
        by (cases "(''INDEXED'', a)" rule: reports.cases) auto
      from indexed "1.prems" poll_document_status_step [OF True chk [unfolded r1]]
      have "res = Inr True" "w' = w1"
        by auto
      with t1 indexed nf True show ?thesis by simp
    next
      case failed
      with "1.prems" poll_document_status_step [OF True chk [unfolded r1]]
      have "res = Inr False" "w' = w1"
        by auto
      with t1 failed True show ?thesis by simp
    next
      case pending
      with r1 have r1n: "r1 = Inr None" by simp
      with "1.prems" poll_document_status_step [OF True chk [unfolded r1n]] have
        rec: "poll_document_status srv kb ds doc_id max_wait (waited + 5) w1 = (res, w')"
        by simp
      from "1.IH" [OF True chk [symmetric] r1n refl rec]
      obtain evs b where
        e: "trace w' = trace w1 @ evs" "res = Inr b"
           "b \<longleftrightarrow> list_ex (reports ''INDEXED'') (polls evs)"
           "list_ex (reports ''FAILED'') (polls evs) \<longrightarrow> \<not> b"
           "slept evs = 5 * length (polls evs)"
           "5 * length (polls evs) < max_wait - (waited + 5) + 5"
           "submitted evs = []"
        by blast
      let ?evs = "[Sleep 5, Call (GetKnowledgeBaseDocuments kb ds [doc_id]) a] @ evs"
      have "trace w' = trace w @ ?evs" using e(1) t1 by simp
      moreover have "b \<longleftrightarrow> list_ex (reports ''INDEXED'') (polls ?evs)"
        using e(3) pending by simp
      moreover have "list_ex (reports ''FAILED'') (polls ?evs) \<longrightarrow> \<not> b"
        using e(4) pending by simp
      moreover have "slept ?evs = 5 * length (polls ?evs)" using e(5) by simp
      moreover have "5 * length (polls ?evs) < max_wait - waited + 5"
      proof -
        have "length (polls ?evs) = Suc (length (polls evs))" by simp
        with e(6) True show ?thesis by arith
      qed
      moreover have "submitted ?evs = []" using e(7) by simp
      ultimately show ?thesis using e(2) by blast
    qed
  qed
qed

section \<open>Per-document ingestion: which polls are made\<close>

lemma length_answers [simp]: "length (answers srv c s n) = n"
  by (induction n arbitrary: s) auto

lemma pending_exception [simp]: "pending (Inl e)"
  by (simp add: pending_def)

lemma polls_poll_events [simp]:
  "polls (poll_events (GetKnowledgeBaseDocuments kb ds ids) rs) = rs"
  by (induction rs) auto

lemma slept_poll_events [simp]: "slept (poll_events c rs) = 5 * length rs"
  by (induction rs) auto

lemma check_document_status_exact:
  assumes "check_document_status srv kb ds doc_id w = (res, w')"
  shows "trace w' =
           trace w @
           [Call (GetKnowledgeBaseDocuments kb ds [doc_id])
              (fst (srv (cloud w) (GetKnowledgeBaseDocuments kb ds [doc_id])))] \<and>
         cloud w' = snd (srv (cloud w) (GetKnowledgeBaseDocuments kb ds [doc_id])) \<and>
         res =
           Inr (if pending (fst (srv (cloud w) (GetKnowledgeBaseDocuments kb ds [doc_id])))
                then None
                else Some (reports ''INDEXED''
                             (fst (srv (cloud w) (GetKnowledgeBaseDocuments kb ds [doc_id])))))"
proof -
  obtain a w1 where c: "call srv (GetKnowledgeBaseDocuments kb ds [doc_id]) w = (a, w1)"
    by (cases "call srv (GetKnowledgeBaseDocuments kb ds [doc_id]) w")
  from call_world [OF c] have
    a: "a = fst (srv (cloud w) (GetKnowledgeBaseDocuments kb ds [doc_id]))" and
    s: "cloud w1 = snd (srv (cloud w) (GetKnowledgeBaseDocuments kb ds [doc_id]))" and
    t: "trace w1 = trace w @ [Call (GetKnowledgeBaseDocuments kb ds [doc_id]) a]"
    by simp_all
  have "w' = w1 \<and> res = Inr (if pending a then None else Some (reports ''INDEXED'' a))"
  proof (cases a)
    case (Inl e)
    with assms c show ?thesis
      by (auto simp: check_document_status_def is_Exception_def)
  next
    case (Inr r)
    show ?thesis
    proof (cases r)
      case (DocumentDetails details)
      with assms c Inr show ?thesis
        by (cases details)
          (auto simp: check_document_status_def is_Exception_def pending_def split: if_splits)
    qed (use assms c Inr in
          \<open>auto simp: check_document_status_def is_Exception_def pending_def\<close>)
  qed
  with s t show ?thesis unfolding a by simp
qed

lemma polls_left_step:
  fixes waited max_wait :: nat
  assumes "waited < max_wait"
  shows "(max_wait - waited + 4) div 5 = Suc ((max_wait - (waited + 5) + 4) div 5)"
proof (cases "max_wait - waited < 5")
  case True
  then have "max_wait - (waited + 5) = 0" by simp
  moreover have "(max_wait - waited + 4) div 5 = 1"
    using True assms by (intro div_nat_eqI) simp_all
  ultimately show ?thesis by simp
next
  case False
  then have "max_wait - waited + 4 = (max_wait - (waited + 5) + 4) + 5" by simp
  then show ?thesis by (simp only: div_add_self2)
qed

text \<open>The polling loop, exactly.  With \<open>n\<close> the number of polls that fit into the window
  that is left and \<open>rs\<close> the answers the service would give to \<open>n\<close> polls in a row, the
  loop polls through the pending answers at the head of \<open>rs\<close> and the answer that follows
  them, if there is one, and stops; it returns whether that answer reports \<^verbatim>\<open>INDEXED\<close>,
  and \<open>False\<close> when all \<open>n\<close> answers are pending.  Every poll follows a sleep of 5.\<close>

lemma poll_document_status_exact:
  assumes "poll_document_status srv kb ds doc_id max_wait waited w = (res, w')"
  shows "res =
           Inr (list_ex (reports ''INDEXED'')
                  (take 1 (dropWhile pending
                     (answers srv (GetKnowledgeBaseDocuments kb ds [doc_id]) (cloud w)
                        ((max_wait - waited + 4) div 5))))) \<and>
         trace w' =
           trace w @
           poll_events (GetKnowledgeBaseDocuments kb ds [doc_id])
             (takeWhile pending
                (answers srv (GetKnowledgeBaseDocuments kb ds [doc_id]) (cloud w)
                   ((max_wait - waited + 4) div 5)) @
              take 1 (dropWhile pending
                (answers srv (GetKnowledgeBaseDocuments kb ds [doc_id]) (cloud w)
                   ((max_wait - waited + 4) div 5))))"
  using assms
proof (induction srv kb ds doc_id max_wait waited w arbitrary: res w'
    rule: poll_document_status.induct)
  case (1 srv kb ds doc_id max_wait waited w)
  let ?c = "GetKnowledgeBaseDocuments kb ds [doc_id]"
  let ?a = "fst (srv (cloud w) ?c)"
  show ?case
  proof (cases "waited < max_wait")
    case False
    then have "(max_wait - waited + 4) div 5 = 0" by simp
    with False "1.prems" show ?thesis by (simp add: poll_document_status_done)
  next
    case True
    obtain r1 w1 where chk: "check_document_status srv kb ds doc_id (sleep 5 w) = (r1, w1)"
      by (cases "check_document_status srv kb ds doc_id (sleep 5 w)")
    from check_document_status_exact [OF chk] have
      t1: "trace w1 = trace w @ [Sleep 5, Call ?c ?a]" and
      s1: "cloud w1 = snd (srv (cloud w) ?c)" and
      r1: "r1 = Inr (if pending ?a then None else Some (reports ''INDEXED'' ?a))"
      by (simp_all add: sleep_def)
    have rs: "answers srv ?c (cloud w) ((max_wait - waited + 4) div 5) =
                ?a # answers srv ?c (cloud w1) ((max_wait - (waited + 5) + 4) div 5)"
      unfolding polls_left_step [OF True] s1 by simp
    show ?thesis
    proof (cases "pending ?a")
      case False
      with "1.prems" poll_document_status_step [OF True chk [unfolded r1]]
      have "res = Inr (reports ''INDEXED'' ?a)" "w' = w1"
        by auto
      with t1 False show ?thesis unfolding rs by simp
    next
      case pending: True
      with r1 have r1n: "r1 = Inr None" by simp
      with "1.prems" poll_document_status_step [OF True chk [unfolded r1n]] have
        rec: "poll_document_status srv kb ds doc_id max_wait (waited + 5) w1 = (res, w')"
        by simp
      from "1.IH" [OF True chk [symmetric] r1n refl rec] t1 pending
      show ?thesis unfolding rs by simp
    qed
  qed
qed

lemma no_report_while_pending:
  "\<not> list_ex (reports ''INDEXED'') (takeWhile pending rs) \<and>
   \<not> list_ex (reports ''FAILED'') (takeWhile pending rs)"
  by (induction rs) (auto simp: pending_def)

lemma reports_one_status:
  "\<not> (list_ex (reports ''FAILED'') (take 1 rs) \<and> list_ex (reports ''INDEXED'') (take 1 rs))"
proof (cases rs)
  case Nil
  then show ?thesis by simp
next
  case (Cons r rs')
  then show ?thesis
    by (cases "(''INDEXED'', r)" rule: reports.cases) auto
qed

lemma length_polls_made:
  "length (takeWhile pending rs @ take 1 (dropWhile pending rs)) \<le> length rs"
proof -
  have "length (take 1 (dropWhile pending rs)) \<le> length (dropWhile pending rs)"
    by simp
  moreover have "length (takeWhile pending rs) + length (dropWhile pending rs) = length rs"
    by (metis length_append takeWhile_dropWhile_id)
  ultimately show ?thesis by simp
qed

text \<open>One call of \<^verbatim>\<open>ingest_single_document\<close>: the first event is the submission of the one
  descriptor, the rest is the polling loop, entered only when the submission returned
  document details.\<close>

lemma ingest_single_document_spec:
  assumes "ingest_single_document srv kb ds s3_uri doc_id metadata w = (res, w')"
  shows "\<exists>a evs b.
           trace w' =
             trace w @
             Call (IngestKnowledgeBaseDocuments ds
                     [\<lparr>customDocumentIdentifier = doc_id, s3Location = s3_uri,
                       sourceType = ''S3_LOCATION'', dataSourceType = ''CUSTOM'',
                       doc_metadata = None\<rparr>] kb) a # evs \<and>
           a = fst (srv (cloud w)
                 (IngestKnowledgeBaseDocuments ds
                     [\<lparr>customDocumentIdentifier = doc_id, s3Location = s3_uri,
                       sourceType = ''S3_LOCATION'', dataSourceType = ''CUSTOM'',
                       doc_metadata = None\<rparr>] kb)) \<and>
           res = Inr b \<and>
           (b \<longleftrightarrow> list_ex (reports ''INDEXED'') (polls evs)) \<and>
           (list_ex (reports ''FAILED'') (polls evs) \<longrightarrow> \<not> b) \<and>
           (isl a \<longrightarrow> evs = []) \<and>
           slept evs = 5 * length (polls evs) \<and>
           length (polls evs) \<le> 12 \<and>
           submitted evs = []"
proof -
  let ?doc = "\<lparr>customDocumentIdentifier = doc_id, s3Location = s3_uri,
                sourceType = ''S3_LOCATION'', dataSourceType = ''CUSTOM'',
                doc_metadata = None\<rparr>"
  obtain a w1 where c: "call srv (IngestKnowledgeBaseDocuments ds [?doc] kb) w = (a, w1)"
    by (cases "call srv (IngestKnowledgeBaseDocuments ds [?doc] kb) w")
  have t: "trace w1 = trace w @ [Call (IngestKnowledgeBaseDocuments ds [?doc] kb) a]"
    and a: "a = fst (srv (cloud w) (IngestKnowledgeBaseDocuments ds [?doc] kb))"
    using call_world [OF c] by simp_all
  have stop: ?thesis if "res = Inr False" "w' = w1"
    using that t a by (intro exI [of _ a] exI [of _ "[]"] exI [of _ False]) simp
  show ?thesis
  proof (cases a)
    case (Inl e)
    with assms c have "res = Inr False" "w' = w1"
      by (auto simp: ingest_single_document_def is_Exception_def)
    then show ?thesis by (rule stop)
  next
    case (Inr r)
    show ?thesis
    proof (cases "\<exists>d details. r = DocumentDetails (d # details)")
      case False
      with assms c Inr have "res = Inr False" "w' = w1"
        by (auto simp: ingest_single_document_def is_Exception_def Let_def
            split: response.splits list.splits)
      then show ?thesis by (rule stop)
    next
      case True
      then obtain d details where r: "r = DocumentDetails (d # details)" by blast
      obtain r2 w2 where p: "poll_document_status srv kb ds doc_id 60 0 w1 = (r2, w2)"
        by (cases "poll_document_status srv kb ds doc_id 60 0 w1")
      from poll_document_status_spec [OF p] obtain evs b where
        e: "trace w2 = trace w1 @ evs" "r2 = Inr b"
           "b \<longleftrightarrow> list_ex (reports ''INDEXED'') (polls evs)"
           "list_ex (reports ''FAILED'') (polls evs) \<longrightarrow> \<not> b"
           "slept evs = 5 * length (polls evs)"
           "5 * length (polls evs) < 60 - 0 + 5"
           "submitted evs = []"
        by blast
      from assms c Inr r p e(2) have "res = Inr b" "w' = w2"
        by (auto simp: ingest_single_document_def)
      moreover have "length (polls evs) \<le> 12" using e(6) by simp
      moreover have "\<not> isl a" using Inr by simp
      ultimately show ?thesis
        using e t a by (intro exI [of _ a] exI [of _ evs] exI [of _ b]) simp
    qed
  qed
qed

text \<open>The same call, exactly: what it returns and what it adds to the trace are fixed by
  the answer \<open>a\<close> to the submission and by the answers the service gives to 12 polls in a
  row after it.\<close>

lemma ingest_single_document_exact:
  assumes "ingest_single_document srv kb ds s3_uri doc_id metadata w = (res, w')"
  shows
    "let submit = IngestKnowledgeBaseDocuments ds
                    [\<lparr>customDocumentIdentifier = doc_id, s3Location = s3_uri,
                      sourceType = ''S3_LOCATION'', dataSourceType = ''CUSTOM'',
                      doc_metadata = None\<rparr>] kb;
         poll = GetKnowledgeBaseDocuments kb ds [doc_id];
         a = fst (srv (cloud w) submit);
         rs = answers srv poll (snd (srv (cloud w) submit)) 12;
         made = (if accepted a then takeWhile pending rs @ take 1 (dropWhile pending rs)
                 else [])
     in res = Inr (list_ex (reports ''INDEXED'') made) \<and>
        trace w' = trace w @ Call submit a # poll_events poll made"
proof -
  let ?doc = "\<lparr>customDocumentIdentifier = doc_id, s3Location = s3_uri,
                sourceType = ''S3_LOCATION'', dataSourceType = ''CUSTOM'',
                doc_metadata = None\<rparr>"
  let ?submit = "IngestKnowledgeBaseDocuments ds [?doc] kb"
  let ?poll = "GetKnowledgeBaseDocuments kb ds [doc_id]"
  let ?rs = "answers srv ?poll (snd (srv (cloud w) ?submit)) 12"
  obtain a w1 where c: "call srv ?submit w = (a, w1)"
    by (cases "call srv ?submit w")
  from call_world [OF c] have
    a: "a = fst (srv (cloud w) ?submit)" and
    s: "cloud w1 = snd (srv (cloud w) ?submit)" and
    t: "trace w1 = trace w @ [Call ?submit a]"
    by simp_all
  have stop: "res = Inr False \<and> w' = w1" if "\<not> accepted a"
  proof (cases a)
    case (Inl e)
    with assms c show ?thesis
      by (auto simp: ingest_single_document_def is_Exception_def)
  next
    case (Inr r)
    with that have "\<nexists>d details. r = DocumentDetails (d # details)" by auto
    with assms c Inr show ?thesis
      by (auto simp: ingest_single_document_def is_Exception_def Let_def
          split: response.splits list.splits)
  qed
  have go: "res = Inr (list_ex (reports ''INDEXED'')
                         (takeWhile pending ?rs @ take 1 (dropWhile pending ?rs))) \<and>
            trace w' =
              trace w @
              Call ?submit a #
              poll_events ?poll (takeWhile pending ?rs @ take 1 (dropWhile pending ?rs))"
    if "accepted a"
  proof -
    from that obtain d details where r: "a = Inr (DocumentDetails (d # details))"
      by (cases a rule: accepted.cases) auto
    obtain r2 w2 where p: "poll_document_status srv kb ds doc_id 60 0 w1 = (r2, w2)"
      by (cases "poll_document_status srv kb ds doc_id 60 0 w1")
    from poll_document_status_exact [OF p] have
      e: "r2 = Inr (list_ex (reports ''INDEXED'') (take 1 (dropWhile pending ?rs)))"
         "trace w2 =
            trace w1 @
            poll_events ?poll (takeWhile pending ?rs @ take 1 (dropWhile pending ?rs))"
      unfolding s by simp_all
    from assms c r p e(1) have "res = r2" "w' = w2"
      by (auto simp: ingest_single_document_def)
    with e t show ?thesis
      using no_report_while_pending [of ?rs] by simp
  qed
  show ?thesis
  proof (cases "accepted a")
    case True
    with go show ?thesis unfolding Let_def a [symmetric] by simp
  next
    case False
    with stop t show ?thesis unfolding Let_def a [symmetric] by simp
  qed
qed

section \<open>Claims on per-document ingestion\<close>

text \<open>
  C3, as amended.  \<^verbatim>\<open>ingest_single_document\<close> never raises: whatever the service does, it
  returns a boolean.  It first submits the one document; \<open>a\<close> is the answer.  When the
  submission raises or returns no document details, nothing is polled and the result is
  \<open>False\<close>.  Otherwise let \<open>rs\<close> be the answers the service gives to 12 polls in a row: the
  polls \<open>made\<close> are the pending answers at the head of \<open>rs\<close> and the answer that follows
  them, if there is one.  So polling stops at the first answer that reports \<^verbatim>\<open>INDEXED\<close> or
  \<^verbatim>\<open>FAILED\<close> and otherwise goes on to the 12th poll; a poll that raises is a pending answer
  like any other, it does not end the polling.  The result is \<open>True\<close> exactly when a poll
  that was made reports \<^verbatim>\<open>INDEXED\<close>, which only the last one can; it is \<open>False\<close> when a poll
  reports \<^verbatim>\<open>FAILED\<close> and when all 12 answers are pending.  The trace is the submission and
  then, for every poll made, a sleep of 5 seconds and the poll: 60 seconds at most.
\<close>

theorem ingest_single_document_outcome:
  "let submit = IngestKnowledgeBaseDocuments ds
                  [\<lparr>customDocumentIdentifier = doc_id, s3Location = s3_uri,
                    sourceType = ''S3_LOCATION'', dataSourceType = ''CUSTOM'',
                    doc_metadata = None\<rparr>] kb;
       poll = GetKnowledgeBaseDocuments kb ds [doc_id];
       a = fst (srv (cloud w) submit);
       rs = answers srv poll (snd (srv (cloud w) submit)) 12;
       made = (if accepted a then takeWhile pending rs @ take 1 (dropWhile pending rs)
               else []);
       run = ingest_single_document srv kb ds s3_uri doc_id metadata w
   in fst run = Inr (list_ex (reports ''INDEXED'') made) \<and>
      added w (snd run) = Call submit a # poll_events poll made \<and>
      polls (added w (snd run)) = made \<and>
      \<not> (list_ex (reports ''FAILED'') made \<and> list_ex (reports ''INDEXED'') made) \<and>
      length made \<le> 12 \<and>
      slept (added w (snd run)) = 5 * length made"
proof -
  let ?submit = "IngestKnowledgeBaseDocuments ds
                  [\<lparr>customDocumentIdentifier = doc_id, s3Location = s3_uri,
                    sourceType = ''S3_LOCATION'', dataSourceType = ''CUSTOM'',
                    doc_metadata = None\<rparr>] kb"
  let ?poll = "GetKnowledgeBaseDocuments kb ds [doc_id]"
  let ?a = "fst (srv (cloud w) ?submit)"
  let ?rs = "answers srv ?poll (snd (srv (cloud w) ?submit)) 12"
  let ?made = "if accepted ?a then takeWhile pending ?rs @ take 1 (dropWhile pending ?rs)
               else []"
  obtain res w' where
    run: "ingest_single_document srv kb ds s3_uri doc_id metadata w = (res, w')"
    by (cases "ingest_single_document srv kb ds s3_uri doc_id metadata w")
  from ingest_single_document_exact [OF run] have
    r: "res = Inr (list_ex (reports ''INDEXED'') ?made)" and
    t: "trace w' = trace w @ Call ?submit ?a # poll_events ?poll ?made"
    unfolding Let_def by simp_all
  have ad: "added w w' = Call ?submit ?a # poll_events ?poll ?made"
    using t by (rule added_append)
  have p: "polls (added w w') = ?made"
    unfolding ad by simp
  have sl: "slept (added w w') = 5 * length ?made"
    unfolding ad by simp
  have one: "\<not> (list_ex (reports ''FAILED'') ?made \<and> list_ex (reports ''INDEXED'') ?made)"
    using no_report_while_pending [of ?rs] reports_one_status [of "dropWhile pending ?rs"]
    by auto
  have len: "length ?made \<le> 12"
    using length_polls_made [of ?rs] by simp
  show ?thesis
    unfolding Let_def run fst_conv snd_conv
    using r ad p one len sl by (intro conjI)
qed

lemmas ingest_run_simps =
  ingest_single_document_def check_document_status_def call_def scripted_def sleep_def
  added_def is_Exception_def Let_def

lemma answers_numeral:
  "answers srv c s (numeral k) = fst (srv s c) # answers srv c (snd (srv s c)) (pred_numeral k)"
  by (simp add: numeral_eq_Suc)

theorem ingest_single_document_outcome_witness:
  "fst (ingest_single_document scripted ''KB1'' ''DS1'' ''s3://b/cat-food-wikipedia.pdf''
          ''cat-food-wikipedia'' [] failing_script) = Inr False \<and>
   polls (added failing_script
     (snd (ingest_single_document scripted ''KB1'' ''DS1'' ''s3://b/cat-food-wikipedia.pdf''
             ''cat-food-wikipedia'' [] failing_script))) =
     [Inr (DocumentDetails [''IN_PROGRESS'']), Inr (DocumentDetails [''FAILED''])] \<and>
   slept (added failing_script
     (snd (ingest_single_document scripted ''KB1'' ''DS1'' ''s3://b/cat-food-wikipedia.pdf''
             ''cat-food-wikipedia'' [] failing_script))) = 10"
  using ingest_single_document_outcome
      [where srv = scripted and w = failing_script and kb = "''KB1''" and ds = "''DS1''"
         and s3_uri = "''s3://b/cat-food-wikipedia.pdf''" and doc_id = "''cat-food-wikipedia''"
         and metadata = "[]"]
  by (simp add: Let_def scripted_def failing_script_def answers_numeral pending_def)

theorem ingest_single_document_poll_exception_counterexample:
  "polls (added flaky_script
     (snd (ingest_single_document scripted ''KB1'' ''DS1'' ''s3://b/cat-food-wikipedia.pdf''
             ''cat-food-wikipedia'' [] flaky_script))) =
     [Inl ClientError, Inr (DocumentDetails [''INDEXED''])] \<and>
   fst (ingest_single_document scripted ''KB1'' ''DS1'' ''s3://b/cat-food-wikipedia.pdf''
          ''cat-food-wikipedia'' [] flaky_script) = Inr True"
  by (simp add: ingest_run_simps flaky_script_def poll_document_status.simps)

text \<open>
  C10.  Two calls of \<^verbatim>\<open>ingest_single_document\<close> that differ in \<^verbatim>\<open>metadata\<close> only do the same
  and return the same; the one descriptor a call submits is built from \<^verbatim>\<open>doc_id\<close> and
  \<^verbatim>\<open>s3_uri\<close> and has no metadata member.
\<close>

theorem metadata_never_submitted:
  "ingest_single_document srv kb ds s3_uri doc_id metadata1 w =
     ingest_single_document srv kb ds s3_uri doc_id metadata2 w \<and>
   submitted (added w (snd (ingest_single_document srv kb ds s3_uri doc_id metadata1 w))) =
     [\<lparr>customDocumentIdentifier = doc_id, s3Location = s3_uri,
       sourceType = ''S3_LOCATION'', dataSourceType = ''CUSTOM'', doc_metadata = None\<rparr>]"
proof -
  obtain res w' where
    run: "ingest_single_document srv kb ds s3_uri doc_id metadata1 w = (res, w')"
    by (cases "ingest_single_document srv kb ds s3_uri doc_id metadata1 w")
  from ingest_single_document_spec [OF run] obtain a evs where
    "trace w' =
       trace w @
       Call (IngestKnowledgeBaseDocuments ds
               [\<lparr>customDocumentIdentifier = doc_id, s3Location = s3_uri,
                 sourceType = ''S3_LOCATION'', dataSourceType = ''CUSTOM'',
                 doc_metadata = None\<rparr>] kb) a # evs"
    "submitted evs = []"
    by blast
  then have "submitted (added w w') =
     [\<lparr>customDocumentIdentifier = doc_id, s3Location = s3_uri,
       sourceType = ''S3_LOCATION'', dataSourceType = ''CUSTOM'', doc_metadata = None\<rparr>]"
    using added_append by fastforce
  then have "submitted
       (added w (snd (ingest_single_document srv kb ds s3_uri doc_id metadata1 w))) =
     [\<lparr>customDocumentIdentifier = doc_id, s3Location = s3_uri,
       sourceType = ''S3_LOCATION'', dataSourceType = ''CUSTOM'', doc_metadata = None\<rparr>]"
    by (simp add: run)
  moreover have "ingest_single_document srv kb ds s3_uri doc_id metadata1 w =
     ingest_single_document srv kb ds s3_uri doc_id metadata2 w"
    by (simp add: ingest_single_document_def)
  ultimately show ?thesis by (rule conjI [rotated])
qed

section \<open>Claims on the batch loop\<close>

lemma ingest_file_submits:
  assumes "ingest_file srv kb ds b f w = (res, w')"
  shows "\<exists>evs. trace w' = trace w @ evs \<and> submitted evs = [descriptor_of b f]"
proof -
  from ingest_single_document_spec [OF assms] obtain a evs where
    "trace w' =
       trace w @ Call (IngestKnowledgeBaseDocuments ds [descriptor_of b f] kb) a # evs"
    "submitted evs = []"
    by blast
  then show ?thesis by (intro exI [of _ "Call (IngestKnowledgeBaseDocuments ds [descriptor_of b f] kb) a # evs"]) simp
qed

lemma ingest_file_returns: "\<exists>ok. fst (ingest_file srv kb ds b f w) = Inr ok"
proof -
  obtain res w' where run: "ingest_file srv kb ds b f w = (res, w')"
    by (cases "ingest_file srv kb ds b f w")
  from ingest_single_document_spec [OF run] show ?thesis
    by (auto simp: run)
qed

text \<open>The worlds \<open>ws 0\<close>, \<open>ws 1\<close>, ... are those in which the successive documents are
  tried: each of the first \<open>k\<close> documents succeeds from \<open>ws i\<close> and leaves \<open>ws (i + 1)\<close>.\<close>

lemma ingest_loop_abort:
  assumes "k < length files"
    and "\<forall>i<k. ingest_file srv kb ds b (files ! i) (ws i) = (Inr True, ws (Suc i))"
    and "fst (ingest_file srv kb ds b (files ! k) (ws k)) = Inr False"
  shows "ingest_loop srv kb ds b files sc fc (ws 0) =
           (Inr (sc + k, fc + 1), snd (ingest_file srv kb ds b (files ! k) (ws k)))"
  using assms
proof (induction files arbitrary: k ws sc)
  case Nil
  then show ?case by simp
next
  case (Cons f fs)
  show ?case
  proof (cases k)
    case 0
    with Cons.prems(3) show ?thesis
      by (cases "ingest_file srv kb ds b f (ws 0)") simp
  next
    case (Suc j)
    from Cons.prems(2) Suc have first: "ingest_file srv kb ds b f (ws 0) = (Inr True, ws 1)"
      by force
    have "ingest_loop srv kb ds b fs (sc + 1) fc ((ws \<circ> Suc) 0) =
            (Inr (sc + 1 + j, fc + 1),
             snd (ingest_file srv kb ds b (fs ! j) ((ws \<circ> Suc) j)))"
    proof (rule Cons.IH)
      show "j < length fs" using Cons.prems(1) Suc by simp
      show "\<forall>i<j. ingest_file srv kb ds b (fs ! i) ((ws \<circ> Suc) i) =
                    (Inr True, (ws \<circ> Suc) (Suc i))"
        using Cons.prems(2) Suc by force
      show "fst (ingest_file srv kb ds b (fs ! j) ((ws \<circ> Suc) j)) = Inr False"
        using Cons.prems(3) Suc by simp
    qed
    with first Suc show ?thesis by simp
  qed
qed

lemma ingest_loop_all:
  assumes "\<forall>i<length files.
             ingest_file srv kb ds b (files ! i) (ws i) = (Inr True, ws (Suc i))"
  shows "ingest_loop srv kb ds b files sc fc (ws 0) =
           (Inr (sc + length files, fc), ws (length files))"
  using assms
proof (induction files arbitrary: ws sc)
  case Nil
  then show ?case by simp
next
  case (Cons f fs)
  from Cons.prems have first: "ingest_file srv kb ds b f (ws 0) = (Inr True, ws 1)"
    by force
  have "ingest_loop srv kb ds b fs (sc + 1) fc ((ws \<circ> Suc) 0) =
          (Inr (sc + 1 + length fs, fc), (ws \<circ> Suc) (length fs))"
  proof (rule Cons.IH)
    show "\<forall>i<length fs. ingest_file srv kb ds b (fs ! i) ((ws \<circ> Suc) i) =
                    (Inr True, (ws \<circ> Suc) (Suc i))"
      using Cons.prems by force
  qed
  with first show ?case by simp
qed

lemma successes_submitted:
  assumes "k \<le> length files"
    and "\<forall>i<k. ingest_file srv kb ds b (files ! i) (ws i) = (Inr True, ws (Suc i))"
  shows "\<exists>evs. trace (ws k) = trace (ws 0) @ evs \<and>
                submitted evs = map (descriptor_of b) (take k files)"
  using assms
proof (induction k)
  case 0
  then show ?case by simp
next
  case (Suc k)
  then obtain evs where
    evs: "trace (ws k) = trace (ws 0) @ evs"
         "submitted evs = map (descriptor_of b) (take k files)"
    by auto
  from Suc.prems have "ingest_file srv kb ds b (files ! k) (ws k) = (Inr True, ws (Suc k))"
    by simp
  from ingest_file_submits [OF this] obtain evs' where
    evs': "trace (ws (Suc k)) = trace (ws k) @ evs'"
          "submitted evs' = [descriptor_of b (files ! k)]"
    by blast
  have "take (Suc k) files = take k files @ [files ! k]"
    using Suc.prems(1) by (simp add: take_Suc_conv_app_nth)
  with evs evs' show ?case
    by (intro exI [of _ "evs @ evs'"]) simp
qed

text \<open>
  C2.  \<open>kb_files\<close> are the \<^verbatim>\<open>.pdf\<close> entries of the folder, in the order of the listing.  When
  the first \<open>k\<close> of them are indexed and the next one (the document number \<open>k + 1\<close>) is
  not, \<^verbatim>\<open>ingest_knowledge_base_documents\<close> returns \<open>(k, 1)\<close> and has submitted these
  \<open>k + 1\<close> documents and no other.  When all of them are indexed it returns
  \<open>(length kb_files, 0)\<close>, having submitted each once.
\<close>

theorem batch_stops_at_first_failure:
  assumes "kb_files = filter (\<lambda>file. endswith file ''.pdf'') listing" and "ws 0 = w"
  shows
    "(k < length kb_files \<and>
      (\<forall>i<k. ingest_file srv kb ds b (kb_files ! i) (ws i) = (Inr True, ws (Suc i))) \<and>
      fst (ingest_file srv kb ds b (kb_files ! k) (ws k)) = Inr False
      \<longrightarrow>
        fst (ingest_knowledge_base_documents srv kb ds b listing w) = Inr (k, 1) \<and>
        submitted (added w (snd (ingest_knowledge_base_documents srv kb ds b listing w))) =
          map (descriptor_of b) (take (Suc k) kb_files)) \<and>
     ((\<forall>i<length kb_files.
          ingest_file srv kb ds b (kb_files ! i) (ws i) = (Inr True, ws (Suc i)))
      \<longrightarrow>
        fst (ingest_knowledge_base_documents srv kb ds b listing w) =
          Inr (length kb_files, 0) \<and>
        submitted (added w (snd (ingest_knowledge_base_documents srv kb ds b listing w))) =
          map (descriptor_of b) kb_files)"
proof (intro conjI impI)
  assume h: "k < length kb_files \<and>
      (\<forall>i<k. ingest_file srv kb ds b (kb_files ! i) (ws i) = (Inr True, ws (Suc i))) \<and>
      fst (ingest_file srv kb ds b (kb_files ! k) (ws k)) = Inr False"
  let ?last = "ingest_file srv kb ds b (kb_files ! k) (ws k)"
  have run: "ingest_knowledge_base_documents srv kb ds b listing w =
               (Inr (k, 1), snd ?last)"
    using ingest_loop_abort [of k kb_files srv kb ds b ws 0 0] h assms
    by (simp add: ingest_knowledge_base_documents_def)
  from h successes_submitted [of k kb_files srv kb ds b ws] obtain evs where
    evs: "trace (ws k) = trace w @ evs" "submitted evs = map (descriptor_of b) (take k kb_files)"
    using assms(2) by auto
  obtain res w' where last: "?last = (res, w')" by (cases ?last)
  from ingest_file_submits [OF last] obtain evs' where
    evs': "trace w' = trace (ws k) @ evs'"
          "submitted evs' = [descriptor_of b (kb_files ! k)]"
    by blast
  have tk: "take (Suc k) kb_files = take k kb_files @ [kb_files ! k]"
    using h by (simp add: take_Suc_conv_app_nth)
  have "added w w' = evs @ evs'"
    using evs(1) evs'(1) by (simp add: added_def)
  then have sub: "submitted (added w (snd ?last)) = map (descriptor_of b) (take (Suc k) kb_files)"
    using evs(2) evs'(2) tk last by simp
  show "fst (ingest_knowledge_base_documents srv kb ds b listing w) = Inr (k, 1)"
    using run by simp
  show "submitted (added w (snd (ingest_knowledge_base_documents srv kb ds b listing w))) =
          map (descriptor_of b) (take (Suc k) kb_files)"
    using run sub by simp
next
  assume h: "\<forall>i<length kb_files.
          ingest_file srv kb ds b (kb_files ! i) (ws i) = (Inr True, ws (Suc i))"
  have run: "ingest_knowledge_base_documents srv kb ds b listing w =
               (Inr (length kb_files, 0), ws (length kb_files))"
    using ingest_loop_all [of kb_files srv kb ds b ws 0 0] h assms
    by (simp add: ingest_knowledge_base_documents_def)
  from h successes_submitted [of "length kb_files" kb_files srv kb ds b ws] obtain evs where
    evs: "trace (ws (length kb_files)) = trace w @ evs"
         "submitted evs = map (descriptor_of b) kb_files"
    using assms(2) by auto
  show "fst (ingest_knowledge_base_documents srv kb ds b listing w) = Inr (length kb_files, 0)"
    using run by simp
  show "submitted (added w (snd (ingest_knowledge_base_documents srv kb ds b listing w))) =
          map (descriptor_of b) kb_files"
    using run evs by (simp add: added_def)
qed

lemma endswith_rev: "endswith s sfx = prefix (rev sfx) (rev s)"
  by (simp add: endswith_def suffix_to_prefix)

theorem batch_stops_at_first_failure_witness:
  "[''a.pdf'', ''b.pdf'', ''c.pdf''] =
     filter (\<lambda>file. endswith file ''.pdf'') [''a.pdf'', ''notes.txt'', ''b.pdf'', ''c.pdf''] \<and>
   ingest_file scripted ''KB1'' ''DS1'' ''bkt'' ''a.pdf'' batch_script =
     (Inr True, snd (ingest_file scripted ''KB1'' ''DS1'' ''bkt'' ''a.pdf'' batch_script)) \<and>
   fst (ingest_file scripted ''KB1'' ''DS1'' ''bkt'' ''b.pdf''
          (snd (ingest_file scripted ''KB1'' ''DS1'' ''bkt'' ''a.pdf'' batch_script))) = Inr False \<and>
   fst (ingest_knowledge_base_documents scripted ''KB1'' ''DS1'' ''bkt''
          [''a.pdf'', ''notes.txt'', ''b.pdf'', ''c.pdf''] batch_script) = Inr (1, 1) \<and>
   submitted (added batch_script
     (snd (ingest_knowledge_base_documents scripted ''KB1'' ''DS1'' ''bkt''
             [''a.pdf'', ''notes.txt'', ''b.pdf'', ''c.pdf''] batch_script))) =
     [descriptor_of ''bkt'' ''a.pdf'', descriptor_of ''bkt'' ''b.pdf'']"
proof -
  let ?w1 = "snd (ingest_file scripted ''KB1'' ''DS1'' ''bkt'' ''a.pdf'' batch_script)"
  define ws where "ws = (\<lambda>i::nat. if i = 0 then batch_script else ?w1)"
  have files: "[''a.pdf'', ''b.pdf'', ''c.pdf''] =
     filter (\<lambda>file. endswith file ''.pdf'') [''a.pdf'', ''notes.txt'', ''b.pdf'', ''c.pdf'']"
    by (simp add: endswith_rev)
  have a: "fst (ingest_file scripted ''KB1'' ''DS1'' ''bkt'' ''a.pdf'' batch_script) = Inr True"
    by (simp add: ingest_run_simps batch_script_def poll_document_status.simps)
  have b: "fst (ingest_file scripted ''KB1'' ''DS1'' ''bkt'' ''b.pdf'' ?w1) = Inr False"
    by (simp add: ingest_run_simps batch_script_def poll_document_status.simps)
  have a': "ingest_file scripted ''KB1'' ''DS1'' ''bkt'' ''a.pdf'' batch_script = (Inr True, ?w1)"
    using a by (simp add: prod_eq_iff)
  have hyp: "(1::nat) < length [''a.pdf'', ''b.pdf'', ''c.pdf''] \<and>
      (\<forall>i<1. ingest_file scripted ''KB1'' ''DS1'' ''bkt'' ([''a.pdf'', ''b.pdf'', ''c.pdf''] ! i) (ws i) =
          (Inr True, ws (Suc i))) \<and>
      fst (ingest_file scripted ''KB1'' ''DS1'' ''bkt'' ([''a.pdf'', ''b.pdf'', ''c.pdf''] ! 1) (ws 1)) =
        Inr False"
    using a' b by (simp add: ws_def)
  have w0: "ws 0 = batch_script" by (simp add: ws_def)
  from batch_stops_at_first_failure
         [where ws = ws and w = batch_script and k = 1 and srv = scripted and kb = "''KB1''"
            and ds = "''DS1''" and b = "''bkt''", OF files w0] hyp
  have "fst (ingest_knowledge_base_documents scripted ''KB1'' ''DS1'' ''bkt''
          [''a.pdf'', ''notes.txt'', ''b.pdf'', ''c.pdf''] batch_script) = Inr (1, 1) \<and>
   submitted (added batch_script
     (snd (ingest_knowledge_base_documents scripted ''KB1'' ''DS1'' ''bkt''
             [''a.pdf'', ''notes.txt'', ''b.pdf'', ''c.pdf''] batch_script))) =
     map (descriptor_of ''bkt'') (take (Suc 1) [''a.pdf'', ''b.pdf'', ''c.pdf''])"
    by blast
  moreover have "map (descriptor_of ''bkt'') (take (Suc 1) [''a.pdf'', ''b.pdf'', ''c.pdf'']) =
     [descriptor_of ''bkt'' ''a.pdf'', descriptor_of ''bkt'' ''b.pdf'']"
    by simp
  ultimately have
    r1: "fst (ingest_knowledge_base_documents scripted ''KB1'' ''DS1'' ''bkt''
          [''a.pdf'', ''notes.txt'', ''b.pdf'', ''c.pdf''] batch_script) = Inr (1, 1)" and
    r2: "submitted (added batch_script
     (snd (ingest_knowledge_base_documents scripted ''KB1'' ''DS1'' ''bkt''
             [''a.pdf'', ''notes.txt'', ''b.pdf'', ''c.pdf''] batch_script))) =
     [descriptor_of ''bkt'' ''a.pdf'', descriptor_of ''bkt'' ''b.pdf'']"
    by (simp_all only:)
  show ?thesis
    by (rule conjI, rule files, rule conjI, rule a', rule conjI, rule b, rule conjI,
        rule r1, rule r2)
qed

section \<open>Claims on the constructor\<close>

text \<open>
  C6, as amended.  For an embedding model that is not in the allow-list the constructor
  sends one request, \<^verbatim>\<open>get_caller_identity\<close> (it precedes the check in \<^verbatim>\<open>__init__\<close>), and
  nothing else: when that request is answered it raises \<^verbatim>\<open>ValueError\<close>, and when that
  request raises, its exception is what the constructor raises.  No resource is created
  or looked up.
\<close>

theorem unknown_model_rejected:
  assumes "model \<notin> set valid_embedding_models"
  shows
    "fst (BedrockKnowledgeBase_init srv region name description data_bucket_name model w) =
       (case fst (srv (cloud w) GetCallerIdentity) of
          Inl e \<Rightarrow> Inl e
        | Inr identity \<Rightarrow> Inl ValueError) \<and>
     added w (snd (BedrockKnowledgeBase_init srv region name description data_bucket_name
                     model w)) =
       [Call GetCallerIdentity (fst (srv (cloud w) GetCallerIdentity))]"
proof -
  obtain r w0 where c: "call srv GetCallerIdentity w = (r, w0)"
    by (cases "call srv GetCallerIdentity w")
  from call_world [OF c] have
    r: "r = fst (srv (cloud w) GetCallerIdentity)" and
    t: "trace w0 = trace w @ [Call GetCallerIdentity (fst (srv (cloud w) GetCallerIdentity))]"
    by simp_all
  have "BedrockKnowledgeBase_init srv region name description data_bucket_name model w =
          (case r of Inl e \<Rightarrow> (Inl e, w0) | Inr identity \<Rightarrow> (Inl ValueError, w0))"
    using assms c by (simp add: BedrockKnowledgeBase_init_def Let_def split: sum.splits)
  then have "BedrockKnowledgeBase_init srv region name description data_bucket_name model w =
          (case fst (srv (cloud w) GetCallerIdentity) of
             Inl e \<Rightarrow> (Inl e, w0) | Inr identity \<Rightarrow> (Inl ValueError, w0))"
    unfolding r .
  then show ?thesis
    using t by (simp add: added_def split: sum.splits)
qed

theorem unknown_model_rejected_witness:
  "''amazon.titan-embed-text-v1'' \<notin> set valid_embedding_models \<and>
   fst (BedrockKnowledgeBase_init cloud_step ''us-east-1'' ''pets-kb'' (Some ''Pets'')
          (Some ''bedrock-kb-bucket-0a1b2c3d'') ''amazon.titan-embed-text-v1'' fresh_account) =
     Inl ValueError \<and>
   added fresh_account
     (snd (BedrockKnowledgeBase_init cloud_step ''us-east-1'' ''pets-kb'' (Some ''Pets'')
             (Some ''bedrock-kb-bucket-0a1b2c3d'') ''amazon.titan-embed-text-v1''
             fresh_account)) =
     [Call GetCallerIdentity (Inr (CallerIdentity (Some ''123456789012'')))]"
proof -
  have m: "''amazon.titan-embed-text-v1'' \<notin> set valid_embedding_models"
    by (simp add: valid_embedding_models_def)
  from unknown_model_rejected [OF m, of cloud_step "''us-east-1''" "''pets-kb''" "Some ''Pets''"
      "Some ''bedrock-kb-bucket-0a1b2c3d''" fresh_account]
  show ?thesis
    using m by (simp add: fresh_account_def)
qed

text \<open>C6 as stated fails twice over: a request is sent before the model is rejected, and
  when that request raises (here: a service that cannot be reached) the constructor does
  not raise \<^verbatim>\<open>ValueError\<close>.\<close>

theorem unknown_model_cloud_call_counterexample:
  "trace (snd (BedrockKnowledgeBase_init cloud_step ''us-east-1'' ''pets-kb'' (Some ''Pets'')
                 (Some ''bedrock-kb-bucket-0a1b2c3d'') ''amazon.titan-embed-text-v1''
                 fresh_account)) \<noteq> trace fresh_account \<and>
   fst (BedrockKnowledgeBase_init (always (Inl BotoCoreError)) ''us-east-1'' ''pets-kb''
          (Some ''Pets'') (Some ''bedrock-kb-bucket-0a1b2c3d'') ''amazon.titan-embed-text-v1''
          \<lparr>cloud = (), trace = []\<rparr>) \<noteq> Inl ValueError"
  by (simp add: BedrockKnowledgeBase_init_def call_def fresh_account_def always_def
      valid_embedding_models_def)

section \<open>Claims on the knowledge-base conflict\<close>

text \<open>The first handler always ends by raising: its own exception when one of its two
  lookups fails, the exception it was given otherwise.\<close>

lemma report_role_and_reraise_raises:
  assumes "report_role_and_reraise srv self e w = (res, w')"
  shows "\<exists>evs. trace w' = trace w @ evs \<and> isl res \<and>
           prefix (requests evs)
             [GetRole (kb_execution_role_name self),
              ListAttachedRolePolicies (kb_execution_role_name self)]"
proof -
  obtain r1 w1 where c1: "call srv (GetRole (kb_execution_role_name self)) w = (r1, w1)"
    by (cases "call srv (GetRole (kb_execution_role_name self)) w")
  obtain r2 w2 where
    c2: "call srv (ListAttachedRolePolicies (kb_execution_role_name self)) w1 = (r2, w2)"
    by (cases "call srv (ListAttachedRolePolicies (kb_execution_role_name self)) w1")
  have t1: "trace w1 = trace w @ [Call (GetRole (kb_execution_role_name self)) r1]"
    using call_world [OF c1] by simp
  have t2: "trace w2 =
      trace w @ [Call (GetRole (kb_execution_role_name self)) r1,
       Call (ListAttachedRolePolicies (kb_execution_role_name self)) r2]"
    using call_world [OF c2] t1 by simp
  from assms c1 c2 have "isl res \<and> (w' = w1 \<or> w' = w2)"
    by (auto simp: report_role_and_reraise_def split: sum.splits)
  with t1 t2 show ?thesis by auto
qed

text \<open>
  C4 fails on the code.  When \<^verbatim>\<open>create_knowledge_base\<close> of the service is answered with
  \<^verbatim>\<open>ConflictException\<close>, the \<^verbatim>\<open>try\<close> statement raises: the clause \<^verbatim>\<open>except Exception\<close> stands
  before the clause \<^verbatim>\<open>except ConflictException\<close> and takes the exception, so the
  knowledge bases are neither listed nor fetched; the requests are the creation and at
  most the two lookups of the first handler.
\<close>

theorem conflict_is_reraised:
  assumes "fst (srv (cloud w)
             (CreateKnowledgeBase (kb_name self) (kb_description self) (RoleArn role)
                (embedding_model_arn self) vb_arn ix_arn)) = Inl ConflictException"
  shows "isl (fst (create_kb_or_get srv self role vb_arn ix_arn w)) \<and>
         prefix (requests (added w (snd (create_kb_or_get srv self role vb_arn ix_arn w))))
           [CreateKnowledgeBase (kb_name self) (kb_description self) (RoleArn role)
              (embedding_model_arn self) vb_arn ix_arn,
            GetRole (kb_execution_role_name self),
            ListAttachedRolePolicies (kb_execution_role_name self)]"
proof -
  let ?c = "CreateKnowledgeBase (kb_name self) (kb_description self) (RoleArn role)
              (embedding_model_arn self) vb_arn ix_arn"
  obtain r w1 where c: "call srv ?c w = (r, w1)" by (cases "call srv ?c w")
  from call_world [OF c] assms have
    r: "r = Inl ConflictException" and t: "trace w1 = trace w @ [Call ?c r]"
    by simp_all
  obtain res w' where h: "report_role_and_reraise srv self ConflictException w1 = (res, w')"
    by (cases "report_role_and_reraise srv self ConflictException w1")
  have run: "create_kb_or_get srv self role vb_arn ix_arn w = (res, w')"
    using c r h by (simp add: create_kb_or_get_def is_Exception_def)
  from report_role_and_reraise_raises [OF h] obtain evs where
    evs: "trace w' = trace w1 @ evs" "isl res"
         "prefix (requests evs)
            [GetRole (kb_execution_role_name self),
             ListAttachedRolePolicies (kb_execution_role_name self)]"
    by blast
  have "added w w' = Call ?c r # evs"
    using evs(1) t by (simp add: added_def)
  with evs(2,3) show ?thesis by (simp add: run)
qed

theorem conflict_is_reraised_witness:
  "fst (cloud_step (cloud provisioned_account)
         (CreateKnowledgeBase (kb_name pets_self) (kb_description pets_self) (RoleArn pets_role)
            (embedding_model_arn pets_self) ''arn:aws:s3vectors:::bucket/pets-kb-vectors-1234''
            ''arn:aws:s3vectors:::bucket/pets-kb-vectors-1234/index/pets-kb-index'')) =
     Inl ConflictException \<and>
   fst (create_kb_or_get cloud_step pets_self pets_role
          ''arn:aws:s3vectors:::bucket/pets-kb-vectors-1234''
          ''arn:aws:s3vectors:::bucket/pets-kb-vectors-1234/index/pets-kb-index''
          provisioned_account) = Inl ConflictException"
proof -
  have c: "fst (cloud_step (cloud provisioned_account)
         (CreateKnowledgeBase (kb_name pets_self) (kb_description pets_self) (RoleArn pets_role)
            (embedding_model_arn pets_self) ''arn:aws:s3vectors:::bucket/pets-kb-vectors-1234''
            ''arn:aws:s3vectors:::bucket/pets-kb-vectors-1234/index/pets-kb-index'')) =
     Inl ConflictException"
    by (simp add: provisioned_account_def pets_self_def)
  have "fst (create_kb_or_get cloud_step pets_self pets_role
          ''arn:aws:s3vectors:::bucket/pets-kb-vectors-1234''
          ''arn:aws:s3vectors:::bucket/pets-kb-vectors-1234/index/pets-kb-index''
          provisioned_account) = Inl ConflictException"
    using conflict_is_reraised
            [where srv = cloud_step and w = provisioned_account and self = pets_self
               and role = pets_role, OF c]
    by (simp add: create_kb_or_get_def report_role_and_reraise_def call_def is_Exception_def
        provisioned_account_def pets_self_def pets_role_def if_exists_def Role_of_def
        embedding_model_arn_def)
  with c show ?thesis by (rule conjI)
qed

lemma retry_loop_numeral:
  "retry_loop (numeral k) f w =
     (case f w of
        (Inr a, w1) \<Rightarrow> (Inr a, w1)
      | (Inl e, w1) \<Rightarrow> retry_loop (pred_numeral k) f (w1\<lparr>trace := trace w1 @ [RetryWait]\<rparr>))"
  by (simp add: numeral_eq_Suc)

lemmas step_simps =
  call_def if_exists_def Let_def pets_self_def pets_role_def fresh_account_def
  provisioned_account_def with_vectors_def with_role_def is_Exception_def is_ClientError_def

lemma run_pair: "fst p = a \<Longrightarrow> p = (a, snd p)"
  by (simp add: prod_eq_iff)

lemma identity_step:
  assumes "cs_account (cloud w) = ''123456789012''"
  shows "fst (call cloud_step GetCallerIdentity w) = Inr (CallerIdentity (Some ''123456789012''))"
    and "cloud (snd (call cloud_step GetCallerIdentity w)) = cloud w"
  using assms by (simp_all add: call_def)

lemma bucket_step:
  assumes "cs_buckets (cloud w) = [(''bedrock-kb-bucket-0a1b2c3d'', [''cat-food-wikipedia.pdf''])]"
  shows "fst (create_s3_bucket cloud_step pets_self w) = Inr ()"
    and "cloud (snd (create_s3_bucket cloud_step pets_self w)) = cloud w"
  using assms by (simp_all add: create_s3_bucket_def step_simps)

lemma vector_step_fresh:
  assumes "cloud w = cloud fresh_account"
  shows "fst (create_s3_vector_resources cloud_step pets_self w) =
           Inr (''pets-kb-vectors-1234'', ''pets-kb-index'',
                ''arn:aws:s3vectors:::bucket/pets-kb-vectors-1234'',
                ''arn:aws:s3vectors:::bucket/pets-kb-vectors-1234/index/pets-kb-index'')"
    and "cloud (snd (create_s3_vector_resources cloud_step pets_self w)) = with_vectors"
  using assms
  by (simp_all add: create_s3_vector_resources_def create_vector_bucket_or_get_def
      create_index_or_get_def vectorBucketArn_def indexArn_def lower_def lower_char_def
      step_simps)

lemma vector_step_provisioned:
  assumes "cloud w = cloud provisioned_account"
  shows "fst (create_s3_vector_resources cloud_step pets_self w) =
           Inr (''pets-kb-vectors-1234'', ''pets-kb-index'',
                ''arn:aws:s3vectors:::bucket/pets-kb-vectors-1234'',
                ''arn:aws:s3vectors:::bucket/pets-kb-vectors-1234/index/pets-kb-index'')"
    and "cloud (snd (create_s3_vector_resources cloud_step pets_self w)) =
           cloud provisioned_account"
  using assms
  by (simp_all add: create_s3_vector_resources_def create_vector_bucket_or_get_def
      create_index_or_get_def vectorBucketArn_def indexArn_def lower_def lower_char_def
      step_simps)

lemmas role_simps =
  create_bedrock_kb_execution_role_def create_fm_policy_def create_s3_policy_def
  create_role_or_get_def Policy_Arn_def Role_of_def role_of_name_def interactive_sleep_trace
  str_def policy_arn_def

lemma role_step_fresh:
  assumes "cloud w = with_vectors"
  shows "fst (create_bedrock_kb_execution_role cloud_step pets_self w) = Inr pets_role"
    and "cloud (snd (create_bedrock_kb_execution_role cloud_step pets_self w)) = with_role"
  using assms by (simp_all add: role_simps step_simps)

lemma role_step_provisioned:
  assumes "cloud w = cloud provisioned_account"
  shows "fst (create_bedrock_kb_execution_role cloud_step pets_self w) = Inr pets_role"
    and "cloud (snd (create_bedrock_kb_execution_role cloud_step pets_self w)) =
           cloud provisioned_account"
  using assms by (simp_all add: role_simps step_simps)

lemmas kb_simps =
  create_knowledge_base_def create_knowledge_base_body_def retry_def create_kb_or_get_def
  create_ds_or_get_def report_role_and_reraise_def adopt_knowledge_base_def
  knowledgeBase_of_def dataSource_of_def embedding_model_arn_def retry_loop_numeral
  Role_of_def role_of_name_def

lemma kb_step_fresh:
  assumes "cloud w = with_role"
  shows "fst (create_knowledge_base cloud_step pets_self pets_role
                ''arn:aws:s3vectors:::bucket/pets-kb-vectors-1234''
                ''arn:aws:s3vectors:::bucket/pets-kb-vectors-1234/index/pets-kb-index'' w) =
           Inr (\<lparr>knowledgeBaseId = ''KB-pets-kb'', kb_rec_name = ''pets-kb''\<rparr>,
                \<lparr>dataSourceId = ''DS-pets-kb''\<rparr>)"
    and "cloud (snd (create_knowledge_base cloud_step pets_self pets_role
                ''arn:aws:s3vectors:::bucket/pets-kb-vectors-1234''
                ''arn:aws:s3vectors:::bucket/pets-kb-vectors-1234/index/pets-kb-index'' w)) =
           cloud provisioned_account"
  using assms by (simp_all add: kb_simps step_simps)

text \<open>One attempt on the provisioned account raises the conflict and leaves the account
  as it is; so does any number of attempts.\<close>

lemma kb_attempt_provisioned:
  assumes "cloud w = cloud provisioned_account"
  shows "fst (create_knowledge_base_body cloud_step pets_self pets_role
                ''arn:aws:s3vectors:::bucket/pets-kb-vectors-1234''
                ''arn:aws:s3vectors:::bucket/pets-kb-vectors-1234/index/pets-kb-index'' w) =
           Inl ConflictException"
    and "cloud (snd (create_knowledge_base_body cloud_step pets_self pets_role
                ''arn:aws:s3vectors:::bucket/pets-kb-vectors-1234''
                ''arn:aws:s3vectors:::bucket/pets-kb-vectors-1234/index/pets-kb-index'' w)) =
           cloud provisioned_account"
  using assms by (simp_all add: kb_simps step_simps)

lemma retry_loop_always_raises:
  assumes "\<And>w. cloud w = s \<Longrightarrow> fst (f w) = Inl e \<and> cloud (snd (f w)) = s"
    and "cloud w = s"
  shows "fst (retry_loop n f w) = Inl e"
  using assms(2)
proof (induction n arbitrary: w)
  case 0
  then show ?case using assms(1) by simp
next
  case (Suc n)
  obtain w1 where f: "f w = (Inl e, w1)" and c: "cloud w1 = s"
    using assms(1) [OF Suc.prems] by (cases "f w") auto
  have "fst (retry_loop n f (w1\<lparr>trace := trace w1 @ [RetryWait]\<rparr>)) = Inl e"
    by (rule Suc.IH) (simp add: c)
  with f show ?case by simp
qed

lemma kb_step_provisioned:
  assumes "cloud w = cloud provisioned_account"
  shows "fst (create_knowledge_base cloud_step pets_self pets_role
                ''arn:aws:s3vectors:::bucket/pets-kb-vectors-1234''
                ''arn:aws:s3vectors:::bucket/pets-kb-vectors-1234/index/pets-kb-index'' w) =
           Inl ConflictException"
  unfolding create_knowledge_base_def retry_def
  by (rule retry_loop_always_raises [where s = "cloud provisioned_account"])
     (use assms kb_attempt_provisioned in auto)

text \<open>The two runs of the constructor with the same arguments: on \<open>fresh_account\<close>, and on
  any world over the account that the first run leaves.\<close>

lemma second_run:
  assumes p: "cloud w = cloud provisioned_account"
  shows "fst (BedrockKnowledgeBase_init cloud_step ''us-east-1'' ''pets-kb'' (Some ''Pets'')
               (Some ''bedrock-kb-bucket-0a1b2c3d'') ''amazon.titan-embed-text-v2:0'' w) =
          Inl ConflictException"
proof -
  let ?vb = "''arn:aws:s3vectors:::bucket/pets-kb-vectors-1234''"
  let ?ix = "''arn:aws:s3vectors:::bucket/pets-kb-vectors-1234/index/pets-kb-index''"
  define w0 where "w0 = snd (call cloud_step GetCallerIdentity w)"
  define w1 where "w1 = snd (create_s3_bucket cloud_step pets_self w0)"
  define w2 where "w2 = snd (create_s3_vector_resources cloud_step pets_self w1)"
  define w3 where "w3 = snd (create_bedrock_kb_execution_role cloud_step pets_self w2)"
  define w4 where "w4 = snd (create_knowledge_base cloud_step pets_self pets_role ?vb ?ix w3)"
  have a: "cs_account (cloud w) = ''123456789012''"
    by (simp add: p provisioned_account_def)
  have c0: "cloud w0 = cloud provisioned_account"
    unfolding w0_def using identity_step(2) [OF a] p by simp
  have b: "cs_buckets (cloud w0) =
             [(''bedrock-kb-bucket-0a1b2c3d'', [''cat-food-wikipedia.pdf''])]"
    by (simp add: c0 provisioned_account_def)
  have s1: "create_s3_bucket cloud_step pets_self w0 = (Inr (), w1)"
    unfolding w1_def by (rule run_pair) (rule bucket_step(1) [OF b])
  have c1: "cloud w1 = cloud provisioned_account"
    unfolding w1_def using bucket_step(2) [OF b] c0 by simp
  have s2: "create_s3_vector_resources cloud_step pets_self w1 =
              (Inr (''pets-kb-vectors-1234'', ''pets-kb-index'', ?vb, ?ix), w2)"
    unfolding w2_def by (rule run_pair) (rule vector_step_provisioned(1) [OF c1])
  have c2: "cloud w2 = cloud provisioned_account"
    unfolding w2_def by (rule vector_step_provisioned(2) [OF c1])
  have s3: "create_bedrock_kb_execution_role cloud_step pets_self w2 = (Inr pets_role, w3)"
    unfolding w3_def by (rule run_pair) (rule role_step_provisioned(1) [OF c2])
  have c3: "cloud w3 = cloud provisioned_account"
    unfolding w3_def by (rule role_step_provisioned(2) [OF c2])
  have s4: "create_knowledge_base cloud_step pets_self pets_role ?vb ?ix w3 =
              (Inl ConflictException, w4)"
    unfolding w4_def by (rule run_pair) (rule kb_step_provisioned [OF c3])
  have s0: "call cloud_step GetCallerIdentity w =
              (Inr (CallerIdentity (Some ''123456789012'')), w0)"
    unfolding w0_def by (rule run_pair) (rule identity_step(1) [OF a])
  show ?thesis
    unfolding BedrockKnowledgeBase_init_def
    by (simp add: s0 Let_def valid_embedding_models_def str_def
        s1 [unfolded pets_self_def] s2 [unfolded pets_self_def]
        s3 [unfolded pets_self_def pets_role_def] s4 [unfolded pets_self_def pets_role_def])
qed

lemma first_run:
  "\<exists>w1. BedrockKnowledgeBase_init cloud_step ''us-east-1'' ''pets-kb'' (Some ''Pets'')
           (Some ''bedrock-kb-bucket-0a1b2c3d'') ''amazon.titan-embed-text-v2:0'' fresh_account =
          (Inr pets_object, w1) \<and>
        cloud w1 = cloud provisioned_account"
proof -
  let ?vb = "''arn:aws:s3vectors:::bucket/pets-kb-vectors-1234''"
  let ?ix = "''arn:aws:s3vectors:::bucket/pets-kb-vectors-1234/index/pets-kb-index''"
  define w0 where "w0 = snd (call cloud_step GetCallerIdentity fresh_account)"
  define w1 where "w1 = snd (create_s3_bucket cloud_step pets_self w0)"
  define w2 where "w2 = snd (create_s3_vector_resources cloud_step pets_self w1)"
  define w3 where "w3 = snd (create_bedrock_kb_execution_role cloud_step pets_self w2)"
  define w4 where "w4 = snd (create_knowledge_base cloud_step pets_self pets_role ?vb ?ix w3)"
  have a: "cs_account (cloud fresh_account) = ''123456789012''"
    by (simp add: fresh_account_def)
  have c0: "cloud w0 = cloud fresh_account"
    unfolding w0_def using identity_step(2) [OF a] by simp
  have b: "cs_buckets (cloud w0) =
             [(''bedrock-kb-bucket-0a1b2c3d'', [''cat-food-wikipedia.pdf''])]"
    by (simp add: c0 fresh_account_def)
  have s1: "create_s3_bucket cloud_step pets_self w0 = (Inr (), w1)"
    unfolding w1_def by (rule run_pair) (rule bucket_step(1) [OF b])
  have c1: "cloud w1 = cloud fresh_account"
    unfolding w1_def using bucket_step(2) [OF b] c0 by simp
  have s2: "create_s3_vector_resources cloud_step pets_self w1 =
              (Inr (''pets-kb-vectors-1234'', ''pets-kb-index'', ?vb, ?ix), w2)"
    unfolding w2_def by (rule run_pair) (rule vector_step_fresh(1) [OF c1])
  have c2: "cloud w2 = with_vectors"
    unfolding w2_def by (rule vector_step_fresh(2) [OF c1])
  have s3: "create_bedrock_kb_execution_role cloud_step pets_self w2 = (Inr pets_role, w3)"
    unfolding w3_def by (rule run_pair) (rule role_step_fresh(1) [OF c2])
  have c3: "cloud w3 = with_role"
    unfolding w3_def by (rule role_step_fresh(2) [OF c2])
  have s4: "create_knowledge_base cloud_step pets_self pets_role ?vb ?ix w3 =
              (Inr (\<lparr>knowledgeBaseId = ''KB-pets-kb'', kb_rec_name = ''pets-kb''\<rparr>,
                    \<lparr>dataSourceId = ''DS-pets-kb''\<rparr>), w4)"
    unfolding w4_def by (rule run_pair) (rule kb_step_fresh(1) [OF c3])
  have c4: "cloud w4 = cloud provisioned_account"
    unfolding w4_def by (rule kb_step_fresh(2) [OF c3])
  have s0: "call cloud_step GetCallerIdentity fresh_account =
              (Inr (CallerIdentity (Some ''123456789012'')), w0)"
    unfolding w0_def by (rule run_pair) (rule identity_step(1) [OF a])
  have "BedrockKnowledgeBase_init cloud_step ''us-east-1'' ''pets-kb'' (Some ''Pets'')
           (Some ''bedrock-kb-bucket-0a1b2c3d'') ''amazon.titan-embed-text-v2:0'' fresh_account =
          (Inr pets_object, w4)"
    unfolding BedrockKnowledgeBase_init_def pets_object_def
    by (simp add: s0 Let_def valid_embedding_models_def str_def
        s1 [unfolded pets_self_def] s2 [unfolded pets_self_def]
        s3 [unfolded pets_self_def pets_role_def] s4 [unfolded pets_self_def pets_role_def]
        pets_role_def)
  with c4 show ?thesis by blast
qed

text \<open>
  C1 fails on the code.  The first run of the constructor on \<open>fresh_account\<close> succeeds and
  leaves the account as in \<open>provisioned_account\<close>.  The second run, with the same
  arguments on the world the first run left, raises \<^verbatim>\<open>ConflictException\<close>: each of the 7
  attempts of \<^verbatim>\<open>create_knowledge_base\<close> is answered with the conflict, which the first
  handler re-raises.
\<close>

theorem second_run_raises_conflict:
  "(case BedrockKnowledgeBase_init cloud_step ''us-east-1'' ''pets-kb'' (Some ''Pets'')
           (Some ''bedrock-kb-bucket-0a1b2c3d'') ''amazon.titan-embed-text-v2:0'' fresh_account of
      (Inl e, w1) \<Rightarrow> False
    | (Inr obj, w1) \<Rightarrow>
        knowledgeBaseId (knowledge_base obj) = ''KB-pets-kb'' \<and>
        dataSourceId (data_source obj) = ''DS-pets-kb'' \<and>
        cloud w1 = cloud provisioned_account \<and>
        fst (BedrockKnowledgeBase_init cloud_step ''us-east-1'' ''pets-kb'' (Some ''Pets'')
               (Some ''bedrock-kb-bucket-0a1b2c3d'') ''amazon.titan-embed-text-v2:0'' w1) =
          Inl ConflictException)"
proof -
  from first_run obtain w1 where
    first: "BedrockKnowledgeBase_init cloud_step ''us-east-1'' ''pets-kb'' (Some ''Pets'')
           (Some ''bedrock-kb-bucket-0a1b2c3d'') ''amazon.titan-embed-text-v2:0'' fresh_account =
          (Inr pets_object, w1)" and
    c: "cloud w1 = cloud provisioned_account"
    by blast
  show ?thesis
    unfolding first using c second_run [OF c] by (simp add: pets_object_def)
qed

section \<open>Claims on teardown\<close>

lemma listed_append [simp]: "listed (xs @ ys) = listed xs @ listed ys"
  by (induction xs rule: listed.induct) auto

lemma delete_objects_spec:
  assumes "delete_objects srv b keys w = (res, w')"
  shows "\<exists>evs. trace w' = trace w @ evs \<and> listed evs = [] \<and>
           prefix (requests evs) (map (DeleteObject b) keys) \<and>
           (\<not> isl res \<longrightarrow> requests evs = map (DeleteObject b) keys)"
  using assms
proof (induction keys arbitrary: w)
  case Nil
  then show ?case by auto
next
  case (Cons key keys)
  obtain r w1 where c: "call srv (DeleteObject b key) w = (r, w1)"
    by (cases "call srv (DeleteObject b key) w")
  have t: "trace w1 = trace w @ [Call (DeleteObject b key) r]"
    using call_world [OF c] by simp
  show ?case
  proof (cases r)
    case (Inl e)
    with Cons.prems c have "res = Inl e" "w' = w1" by auto
    with t show ?thesis
      by (intro exI [of _ "[Call (DeleteObject b key) r]"]) simp
  next
    case (Inr x)
    with Cons.prems c have "delete_objects srv b keys w1 = (res, w')" by simp
    from Cons.IH [OF this] obtain evs where
      evs: "trace w' = trace w1 @ evs" "listed evs = []"
           "prefix (requests evs) (map (DeleteObject b) keys)"
           "\<not> isl res \<longrightarrow> requests evs = map (DeleteObject b) keys"
      by blast
    with t show ?thesis
      by (intro exI [of _ "Call (DeleteObject b key) r # evs"]) simp
  qed
qed

lemma delete_s3_spec:
  assumes "delete_s3 srv self w = (res, w')"
  shows "\<exists>evs. trace w' = trace w @ evs \<and>
           prefix (requests evs)
             (ListObjects (bucket_name self) #
              map (DeleteObject (bucket_name self)) (listed evs) @
              [DeleteBucket (bucket_name self)]) \<and>
           (\<not> isl res \<longrightarrow>
              requests evs =
                ListObjects (bucket_name self) #
                map (DeleteObject (bucket_name self)) (listed evs) @
                [DeleteBucket (bucket_name self)])"
proof -
  let ?b = "bucket_name self"
  obtain r w1 where c: "call srv (ListObjects ?b) w = (r, w1)"
    by (cases "call srv (ListObjects ?b) w")
  have t: "trace w1 = trace w @ [Call (ListObjects ?b) r]"
    using call_world [OF c] by simp
  show ?thesis
  proof (cases r)
    case (Inl e)
    with assms c have "res = Inl e" "w' = w1" by (auto simp: delete_s3_def)
    with t Inl show ?thesis
      by (intro exI [of _ "[Call (ListObjects ?b) r]"]) simp
  next
    case (Inr objects)
    define keys where "keys = (case objects of Objects (Some contents) \<Rightarrow> contents | _ \<Rightarrow> [])"
    have l: "listed [Call (ListObjects ?b) r] = keys"
      unfolding keys_def Inr by (cases objects) (auto split: option.splits)
    obtain r2 w2 where d: "delete_objects srv ?b keys w1 = (r2, w2)"
      by (cases "delete_objects srv ?b keys w1")
    from delete_objects_spec [OF d] obtain evs where
      evs: "trace w2 = trace w1 @ evs" "listed evs = []"
           "prefix (requests evs) (map (DeleteObject ?b) keys)"
           "\<not> isl r2 \<longrightarrow> requests evs = map (DeleteObject ?b) keys"
      by blast
    have l2: "listed (Call (ListObjects ?b) r # evs) = keys"
      using l evs(2) listed_append [of "[Call (ListObjects ?b) r]" evs] by simp
    show ?thesis
    proof (cases r2)
      case (Inl e)
      with assms c d Inr have "res = Inl e" "w' = w2"
        by (auto simp: delete_s3_def keys_def)
      moreover have "prefix (requests evs) (map (DeleteObject ?b) keys @ [DeleteBucket ?b])"
        using evs(3) by (rule prefix_prefix)
      ultimately show ?thesis
        using t evs(1) l2
        by (intro exI [of _ "Call (ListObjects ?b) r # evs"]) simp
    next
      case r2: (Inr u)
      obtain r3 w3 where e: "call srv (DeleteBucket ?b) w2 = (r3, w3)"
        by (cases "call srv (DeleteBucket ?b) w2")
      have t3: "trace w3 = trace w2 @ [Call (DeleteBucket ?b) r3]"
        using call_world [OF e] by simp
      from assms c d e Inr r2 have "w' = w3" "isl res \<or> res = Inr ()"
        by (auto simp: delete_s3_def keys_def split: sum.splits)
      moreover have "requests evs = map (DeleteObject ?b) keys"
        using evs(4) r2 by simp
      moreover have "listed (Call (ListObjects ?b) r # evs @ [Call (DeleteBucket ?b) r3]) = keys"
        using l2 listed_append [of "Call (ListObjects ?b) r # evs" "[Call (DeleteBucket ?b) r3]"]
        by simp
      ultimately show ?thesis
        using t evs(1) t3
        by (intro exI [of _ "Call (ListObjects ?b) r # evs @ [Call (DeleteBucket ?b) r3]"])
           simp
    qed
  qed
qed

lemma delete_iam_roles_and_policies_spec:
  assumes "delete_iam_roles_and_policies srv self w = (res, w')"
  shows "\<exists>evs. trace w' = trace w @ evs \<and> listed evs = [] \<and>
           prefix (requests evs)
             [DetachRolePolicy (kb_execution_role_name self)
                (policy_arn (account_number self) (s3_policy_name self)),
              DetachRolePolicy (kb_execution_role_name self)
                (policy_arn (account_number self) (fm_policy_name self)),
              DeleteRole (kb_execution_role_name self),
              DeletePolicy (policy_arn (account_number self) (s3_policy_name self)),
              DeletePolicy (policy_arn (account_number self) (fm_policy_name self))] \<and>
           (\<not> isl res \<longrightarrow>
              requests evs =
                [DetachRolePolicy (kb_execution_role_name self)
                   (policy_arn (account_number self) (s3_policy_name self)),
                 DetachRolePolicy (kb_execution_role_name self)
                   (policy_arn (account_number self) (fm_policy_name self)),
                 DeleteRole (kb_execution_role_name self),
                 DeletePolicy (policy_arn (account_number self) (s3_policy_name self)),
                 DeletePolicy (policy_arn (account_number self) (fm_policy_name self))])"
proof -
  let ?role = "kb_execution_role_name self"
  let ?s3 = "policy_arn (account_number self) (s3_policy_name self)"
  let ?fm = "policy_arn (account_number self) (fm_policy_name self)"
  obtain r1 w1 where c1: "call srv (DetachRolePolicy ?role ?s3) w = (r1, w1)"
    by (cases "call srv (DetachRolePolicy ?role ?s3) w")
  obtain r2 w2 where c2: "call srv (DetachRolePolicy ?role ?fm) w1 = (r2, w2)"
    by (cases "call srv (DetachRolePolicy ?role ?fm) w1")
  obtain r3 w3 where c3: "call srv (DeleteRole ?role) w2 = (r3, w3)"
    by (cases "call srv (DeleteRole ?role) w2")
  obtain r4 w4 where c4: "call srv (DeletePolicy ?s3) w3 = (r4, w4)"
    by (cases "call srv (DeletePolicy ?s3) w3")
  obtain r5 w5 where c5: "call srv (DeletePolicy ?fm) w4 = (r5, w5)"
    by (cases "call srv (DeletePolicy ?fm) w4")
  have t1: "trace w1 = trace w @ [Call (DetachRolePolicy ?role ?s3) r1]"
    using call_world [OF c1] by simp
  have t2: "trace w2 = trace w @ [Call (DetachRolePolicy ?role ?s3) r1,
              Call (DetachRolePolicy ?role ?fm) r2]"
    using call_world [OF c2] t1 by simp
  have t3: "trace w3 = trace w @ [Call (DetachRolePolicy ?role ?s3) r1,
              Call (DetachRolePolicy ?role ?fm) r2, Call (DeleteRole ?role) r3]"
    using call_world [OF c3] t2 by simp
  have t4: "trace w4 = trace w @ [Call (DetachRolePolicy ?role ?s3) r1,
              Call (DetachRolePolicy ?role ?fm) r2, Call (DeleteRole ?role) r3,
              Call (DeletePolicy ?s3) r4]"
    using call_world [OF c4] t3 by simp
  have t5: "trace w5 = trace w @ [Call (DetachRolePolicy ?role ?s3) r1,
              Call (DetachRolePolicy ?role ?fm) r2, Call (DeleteRole ?role) r3,
              Call (DeletePolicy ?s3) r4, Call (DeletePolicy ?fm) r5]"
    using call_world [OF c5] t4 by simp
  from assms c1 c2 c3 c4 c5 have
    "(isl res \<and> (w' = w1 \<or> w' = w2 \<or> w' = w3 \<or> w' = w4 \<or> w' = w5)) \<or> w' = w5"
    by (auto simp: delete_iam_roles_and_policies_def Let_def split: sum.splits)
  then consider "isl res" "w' = w1" | "isl res" "w' = w2" | "isl res" "w' = w3"
    | "isl res" "w' = w4" | "w' = w5"
    by blast
  then show ?thesis
  proof cases
    case 1
    with t1 show ?thesis
      by (intro exI [of _ "[Call (DetachRolePolicy ?role ?s3) r1]"]) simp
  next
    case 2
    with t2 show ?thesis
      by (intro exI [of _ "[Call (DetachRolePolicy ?role ?s3) r1,
              Call (DetachRolePolicy ?role ?fm) r2]"]) simp
  next
    case 3
    with t3 show ?thesis
      by (intro exI [of _ "[Call (DetachRolePolicy ?role ?s3) r1,
              Call (DetachRolePolicy ?role ?fm) r2, Call (DeleteRole ?role) r3]"]) simp
  next
    case 4
    with t4 show ?thesis
      by (intro exI [of _ "[Call (DetachRolePolicy ?role ?s3) r1,
              Call (DetachRolePolicy ?role ?fm) r2, Call (DeleteRole ?role) r3,
              Call (DeletePolicy ?s3) r4]"]) simp
  next
    case 5
    with t5 show ?thesis
      by (intro exI [of _ "[Call (DetachRolePolicy ?role ?s3) r1,
              Call (DetachRolePolicy ?role ?fm) r2, Call (DeleteRole ?role) r3,
              Call (DeletePolicy ?s3) r4, Call (DeletePolicy ?fm) r5]"]) simp
  qed
qed

text \<open>The whole of \<^verbatim>\<open>delete_kb\<close>: its requests are an initial part of one fixed sequence, and
  the whole sequence when it returns.\<close>

lemma delete_kb_spec:
  assumes "delete_kb srv self delete_s3_bucket delete_iam w = (res, w')"
  shows "\<exists>evs. trace w' = trace w @ evs \<and>
           prefix (requests evs)
             ([DeleteDataSource (dataSourceId (data_source self))
                 (knowledgeBaseId (knowledge_base self)),
               DeleteKnowledgeBase (knowledgeBaseId (knowledge_base self))] @
              (if delete_s3_bucket
               then ListObjects (bucket_name self) #
                    map (DeleteObject (bucket_name self)) (listed evs) @
                    [DeleteBucket (bucket_name self)]
               else []) @
              (if delete_iam
               then [DetachRolePolicy (kb_execution_role_name self)
                       (policy_arn (account_number self) (s3_policy_name self)),
                     DetachRolePolicy (kb_execution_role_name self)
                       (policy_arn (account_number self) (fm_policy_name self)),
                     DeleteRole (kb_execution_role_name self),
                     DeletePolicy (policy_arn (account_number self) (s3_policy_name self)),
                     DeletePolicy (policy_arn (account_number self) (fm_policy_name self))]
               else [])) \<and>
           (\<not> isl res \<longrightarrow>
              requests evs =
                [DeleteDataSource (dataSourceId (data_source self))
                   (knowledgeBaseId (knowledge_base self)),
                 DeleteKnowledgeBase (knowledgeBaseId (knowledge_base self))] @
                (if delete_s3_bucket
                 then ListObjects (bucket_name self) #
                      map (DeleteObject (bucket_name self)) (listed evs) @
                      [DeleteBucket (bucket_name self)]
                 else []) @
                (if delete_iam
                 then [DetachRolePolicy (kb_execution_role_name self)
                         (policy_arn (account_number self) (s3_policy_name self)),
                       DetachRolePolicy (kb_execution_role_name self)
                         (policy_arn (account_number self) (fm_policy_name self)),
                       DeleteRole (kb_execution_role_name self),
                       DeletePolicy (policy_arn (account_number self) (s3_policy_name self)),
                       DeletePolicy (policy_arn (account_number self) (fm_policy_name self))]
                 else []))"
proof -
  let ?ds = "DeleteDataSource (dataSourceId (data_source self))
               (knowledgeBaseId (knowledge_base self))"
  let ?kb = "DeleteKnowledgeBase (knowledgeBaseId (knowledge_base self))"
  define S where "S = (\<lambda>keys. if delete_s3_bucket
               then ListObjects (bucket_name self) #
                    map (DeleteObject (bucket_name self)) keys @
                    [DeleteBucket (bucket_name self)]
               else [])"
  define I where "I = (if delete_iam
               then [DetachRolePolicy (kb_execution_role_name self)
                       (policy_arn (account_number self) (s3_policy_name self)),
                     DetachRolePolicy (kb_execution_role_name self)
                       (policy_arn (account_number self) (fm_policy_name self)),
                     DeleteRole (kb_execution_role_name self),
                     DeletePolicy (policy_arn (account_number self) (s3_policy_name self)),
                     DeletePolicy (policy_arn (account_number self) (fm_policy_name self))]
               else [])"
  have goal: ?thesis
    if "trace w' = trace w @ evs" "prefix (requests evs) ([?ds, ?kb] @ S (listed evs) @ I)"
       "\<not> isl res \<longrightarrow> requests evs = [?ds, ?kb] @ S (listed evs) @ I" for evs
    using that unfolding S_def I_def by (intro exI [of _ evs]) simp
  obtain r1 w1 where c1: "call srv ?ds w = (r1, w1)" by (cases "call srv ?ds w")
  obtain r2 w2 where c2: "call srv ?kb w1 = (r2, w2)" by (cases "call srv ?kb w1")
  have t1: "trace w1 = trace w @ [Call ?ds r1]" using call_world [OF c1] by simp
  have t2: "trace w2 = trace w @ [Call ?ds r1, Call ?kb r2]"
    using call_world [OF c2] t1 by simp
  show ?thesis
  proof (cases r1)
    case (Inl e)
    with assms c1 have "res = Inl e" "w' = w1" by (auto simp: delete_kb_def)
    with t1 show ?thesis by (intro goal [of "[Call ?ds r1]"]) simp_all
  next
    case r1: (Inr x1)
    show ?thesis
    proof (cases r2)
      case (Inl e)
      with assms c1 c2 r1 have "res = Inl e" "w' = w2" by (auto simp: delete_kb_def)
      with t2 show ?thesis by (intro goal [of "[Call ?ds r1, Call ?kb r2]"]) simp_all
    next
      case r2: (Inr x2)
      obtain r3 w3 where
        c3: "(if delete_s3_bucket then delete_s3 srv self w2 else (Inr (), w2)) = (r3, w3)"
        by (cases "if delete_s3_bucket then delete_s3 srv self w2 else (Inr (), w2)")
      have "\<exists>evs3. trace w3 = trace w2 @ evs3 \<and>
              prefix (requests evs3) (S (listed evs3)) \<and>
              (\<not> isl r3 \<longrightarrow> requests evs3 = S (listed evs3))"
      proof (cases delete_s3_bucket)
        case True
        with c3 have "delete_s3 srv self w2 = (r3, w3)" by simp
        from delete_s3_spec [OF this] True show ?thesis by (simp add: S_def)
      next
        case False
        with c3 show ?thesis by (auto simp: S_def)
      qed
      then obtain evs3 where
        e3: "trace w3 = trace w2 @ evs3" "prefix (requests evs3) (S (listed evs3))"
            "\<not> isl r3 \<longrightarrow> requests evs3 = S (listed evs3)"
        by blast
      have t3: "trace w3 = trace w @ Call ?ds r1 # Call ?kb r2 # evs3"
        using e3(1) t2 by simp
      show ?thesis
      proof (cases r3)
        case (Inl e)
        with assms c1 c2 c3 r1 r2 have "res = Inl e" "w' = w3"
          by (auto simp: delete_kb_def)
        moreover have "prefix (requests evs3) (S (listed evs3) @ I)"
          using e3(2) by (rule prefix_prefix)
        ultimately show ?thesis
          using t3 by (intro goal [of "Call ?ds r1 # Call ?kb r2 # evs3"]) simp_all
      next
        case r3: (Inr x3)
        obtain r4 w4 where
          c4: "(if delete_iam then delete_iam_roles_and_policies srv self w3 else (Inr 0, w3)) =
                 (r4, w4)"
          by (cases "if delete_iam then delete_iam_roles_and_policies srv self w3
                     else (Inr 0, w3)")
        have "\<exists>evs4. trace w4 = trace w3 @ evs4 \<and> listed evs4 = [] \<and>
                prefix (requests evs4) I \<and> (\<not> isl r4 \<longrightarrow> requests evs4 = I)"
        proof (cases delete_iam)
          case True
          with c4 have "delete_iam_roles_and_policies srv self w3 = (r4, w4)" by simp
          from delete_iam_roles_and_policies_spec [OF this] True show ?thesis
            by (simp add: I_def)
        next
          case False
          with c4 show ?thesis by (auto simp: I_def)
        qed
        then obtain evs4 where
          e4: "trace w4 = trace w3 @ evs4" "listed evs4 = []" "prefix (requests evs4) I"
              "\<not> isl r4 \<longrightarrow> requests evs4 = I"
          by blast
        have s3: "requests evs3 = S (listed evs3)" using e3(3) r3 by simp
        from assms c1 c2 c3 c4 r1 r2 r3 have w': "w' = w4" and res: "isl res \<longleftrightarrow> isl r4"
          by (auto simp: delete_kb_def split: sum.splits)
        let ?evs = "Call ?ds r1 # Call ?kb r2 # evs3 @ evs4"
        have l: "listed ?evs = listed evs3" using e4(2) by simp
        have "trace w' = trace w @ ?evs" using t3 e4(1) w' by simp
        moreover have "requests ?evs = [?ds, ?kb] @ S (listed evs3) @ requests evs4"
          using s3 by simp
        ultimately show ?thesis
          using e4(3,4) res l by (intro goal [of ?evs]) (simp_all del: listed.simps)
      qed
    qed
  qed
qed

lemmas teardown_run_simps =
  delete_kb_def delete_s3_def delete_iam_roles_and_policies_def call_def scripted_def
  always_def pets_object_def pets_role_def policy_arn_def str_def added_def Let_def

text \<open>
  C7, as amended.  The requests of \<^verbatim>\<open>delete_kb\<close> are an initial part of the sequence below,
  and the whole of it when \<^verbatim>\<open>delete_kb\<close> returns: the data source, then the knowledge base;
  with \<^verbatim>\<open>delete_s3_bucket\<close>, the listing, the deletion of every object listed, then the
  bucket; with \<^verbatim>\<open>delete_iam_roles_and_policies\<close>, the two detachments, then the role, and
  the two policies after the role.
\<close>

theorem teardown_order:
  "prefix (requests (added w (snd (delete_kb srv self delete_s3_bucket delete_iam w))))
     ([DeleteDataSource (dataSourceId (data_source self))
         (knowledgeBaseId (knowledge_base self)),
       DeleteKnowledgeBase (knowledgeBaseId (knowledge_base self))] @
      (if delete_s3_bucket
       then ListObjects (bucket_name self) #
            map (DeleteObject (bucket_name self))
              (listed (added w (snd (delete_kb srv self delete_s3_bucket delete_iam w)))) @
            [DeleteBucket (bucket_name self)]
       else []) @
      (if delete_iam
       then [DetachRolePolicy (kb_execution_role_name self)
               (policy_arn (account_number self) (s3_policy_name self)),
             DetachRolePolicy (kb_execution_role_name self)
               (policy_arn (account_number self) (fm_policy_name self)),
             DeleteRole (kb_execution_role_name self),
             DeletePolicy (policy_arn (account_number self) (s3_policy_name self)),
             DeletePolicy (policy_arn (account_number self) (fm_policy_name self))]
       else [])) \<and>
   (\<not> isl (fst (delete_kb srv self delete_s3_bucket delete_iam w)) \<longrightarrow>
      requests (added w (snd (delete_kb srv self delete_s3_bucket delete_iam w))) =
        [DeleteDataSource (dataSourceId (data_source self))
           (knowledgeBaseId (knowledge_base self)),
         DeleteKnowledgeBase (knowledgeBaseId (knowledge_base self))] @
        (if delete_s3_bucket
         then ListObjects (bucket_name self) #
              map (DeleteObject (bucket_name self))
                (listed (added w (snd (delete_kb srv self delete_s3_bucket delete_iam w)))) @
              [DeleteBucket (bucket_name self)]
         else []) @
        (if delete_iam
         then [DetachRolePolicy (kb_execution_role_name self)
                 (policy_arn (account_number self) (s3_policy_name self)),
               DetachRolePolicy (kb_execution_role_name self)
                 (policy_arn (account_number self) (fm_policy_name self)),
               DeleteRole (kb_execution_role_name self),
               DeletePolicy (policy_arn (account_number self) (s3_policy_name self)),
               DeletePolicy (policy_arn (account_number self) (fm_policy_name self))]
         else []))"
proof -
  obtain res w' where run: "delete_kb srv self delete_s3_bucket delete_iam w = (res, w')"
    by (cases "delete_kb srv self delete_s3_bucket delete_iam w")
  from delete_kb_spec [OF run] obtain evs where
    evs: "trace w' = trace w @ evs"
    and rest: "prefix (requests evs)
             ([DeleteDataSource (dataSourceId (data_source self))
                 (knowledgeBaseId (knowledge_base self)),
               DeleteKnowledgeBase (knowledgeBaseId (knowledge_base self))] @
              (if delete_s3_bucket
               then ListObjects (bucket_name self) #
                    map (DeleteObject (bucket_name self)) (listed evs) @
                    [DeleteBucket (bucket_name self)]
               else []) @
              (if delete_iam
               then [DetachRolePolicy (kb_execution_role_name self)
                       (policy_arn (account_number self) (s3_policy_name self)),
                     DetachRolePolicy (kb_execution_role_name self)
                       (policy_arn (account_number self) (fm_policy_name self)),
                     DeleteRole (kb_execution_role_name self),
                     DeletePolicy (policy_arn (account_number self) (s3_policy_name self)),
                     DeletePolicy (policy_arn (account_number self) (fm_policy_name self))]
               else [])) \<and>
           (\<not> isl res \<longrightarrow>
              requests evs =
                [DeleteDataSource (dataSourceId (data_source self))
                   (knowledgeBaseId (knowledge_base self)),
                 DeleteKnowledgeBase (knowledgeBaseId (knowledge_base self))] @
                (if delete_s3_bucket
                 then ListObjects (bucket_name self) #
                      map (DeleteObject (bucket_name self)) (listed evs) @
                      [DeleteBucket (bucket_name self)]
                 else []) @
                (if delete_iam
                 then [DetachRolePolicy (kb_execution_role_name self)
                         (policy_arn (account_number self) (s3_policy_name self)),
                       DetachRolePolicy (kb_execution_role_name self)
                         (policy_arn (account_number self) (fm_policy_name self)),
                       DeleteRole (kb_execution_role_name self),
                       DeletePolicy (policy_arn (account_number self) (s3_policy_name self)),
                       DeletePolicy (policy_arn (account_number self) (fm_policy_name self))]
                 else []))"
    by blast
  have a: "added w (snd (delete_kb srv self delete_s3_bucket delete_iam w)) = evs"
    using added_append [OF evs] by (simp add: run)
  have r: "fst (delete_kb srv self delete_s3_bucket delete_iam w) = res"
    by (simp add: run)
  show ?thesis
    unfolding a r by (rule rest)
qed

theorem teardown_order_witness:
  "\<not> isl (fst (delete_kb scripted pets_object True True teardown_script)) \<and>
   requests (added teardown_script
     (snd (delete_kb scripted pets_object True True teardown_script))) =
     [DeleteDataSource ''DS-pets-kb'' ''KB-pets-kb'',
      DeleteKnowledgeBase ''KB-pets-kb'',
      ListObjects ''bedrock-kb-bucket-0a1b2c3d'',
      DeleteObject ''bedrock-kb-bucket-0a1b2c3d'' ''cat-food-wikipedia.pdf'',
      DeleteObject ''bedrock-kb-bucket-0a1b2c3d'' ''dog-food-wikipedia.pdf'',
      DeleteBucket ''bedrock-kb-bucket-0a1b2c3d'',
      DetachRolePolicy ''AmazonBedrockExecutionRoleForKnowledgeBase_1234''
        ''arn:aws:iam::123456789012:policy/AmazonBedrockS3PolicyForKnowledgeBase_1234'',
      DetachRolePolicy ''AmazonBedrockExecutionRoleForKnowledgeBase_1234''
        ''arn:aws:iam::123456789012:policy/AmazonBedrockFoundationModelPolicyForKnowledgeBase_1234'',
      DeleteRole ''AmazonBedrockExecutionRoleForKnowledgeBase_1234'',
      DeletePolicy
        ''arn:aws:iam::123456789012:policy/AmazonBedrockS3PolicyForKnowledgeBase_1234'',
      DeletePolicy
        ''arn:aws:iam::123456789012:policy/AmazonBedrockFoundationModelPolicyForKnowledgeBase_1234'']"
  using teardown_order [of teardown_script scripted pets_object True True]
  by (simp add: teardown_run_simps teardown_script_def)

text \<open>C7 as stated fails in its last part: on a service that answers every request, the
  teardown completes, and no policy is deleted before the role is: the role goes first.\<close>

theorem policies_deleted_after_role_counterexample:
  "fst (delete_kb (always (Inr Done)) pets_object False True \<lparr>cloud = (), trace = []\<rparr>) = Inr () \<and>
   requests (trace (snd (delete_kb (always (Inr Done)) pets_object False True
                           \<lparr>cloud = (), trace = []\<rparr>))) =
     [DeleteDataSource ''DS-pets-kb'' ''KB-pets-kb'',
      DeleteKnowledgeBase ''KB-pets-kb'',
      DetachRolePolicy ''AmazonBedrockExecutionRoleForKnowledgeBase_1234''
        ''arn:aws:iam::123456789012:policy/AmazonBedrockS3PolicyForKnowledgeBase_1234'',
      DetachRolePolicy ''AmazonBedrockExecutionRoleForKnowledgeBase_1234''
        ''arn:aws:iam::123456789012:policy/AmazonBedrockFoundationModelPolicyForKnowledgeBase_1234'',
      DeleteRole ''AmazonBedrockExecutionRoleForKnowledgeBase_1234'',
      DeletePolicy
        ''arn:aws:iam::123456789012:policy/AmazonBedrockS3PolicyForKnowledgeBase_1234'',
      DeletePolicy
        ''arn:aws:iam::123456789012:policy/AmazonBedrockFoundationModelPolicyForKnowledgeBase_1234''] \<and>
   \<not> list_ex (\<lambda>c. case c of DeletePolicy arn \<Rightarrow> True | _ \<Rightarrow> False)
       (takeWhile (\<lambda>c. c \<noteq> DeleteRole ''AmazonBedrockExecutionRoleForKnowledgeBase_1234'')
          (requests (trace (snd (delete_kb (always (Inr Done)) pets_object False True
                                   \<lparr>cloud = (), trace = []\<rparr>)))))"
  by (simp add: teardown_run_simps)

text \<open>
  C8, as amended.  With both flags set, once the data source and the knowledge base are
  deleted, the two optional steps run one after the other with nothing to catch an
  exception: when the storage step raises, \<^verbatim>\<open>delete_kb\<close> raises that exception from the
  world the storage step left, and no request of the IAM step has been sent; when the
  storage step returns and the IAM step raises, \<^verbatim>\<open>delete_kb\<close> raises that exception.
\<close>

theorem optional_steps_propagate:
  assumes "call srv (DeleteDataSource (dataSourceId (data_source self))
                       (knowledgeBaseId (knowledge_base self))) w = (Inr r1, w1)"
    and "call srv (DeleteKnowledgeBase (knowledgeBaseId (knowledge_base self))) w1 = (Inr r2, w2)"
  shows "(delete_s3 srv self w2 = (Inl e, w3) \<longrightarrow>
            delete_kb srv self True True w = (Inl e, w3) \<and>
            \<not> list_ex is_iam_request (requests (added w w3))) \<and>
         (delete_s3 srv self w2 = (Inr u, w3) \<and>
          delete_iam_roles_and_policies srv self w3 = (Inl e, w4) \<longrightarrow>
            delete_kb srv self True True w = (Inl e, w4))"
proof (intro conjI impI)
  assume s: "delete_s3 srv self w2 = (Inl e, w3)"
  show "delete_kb srv self True True w = (Inl e, w3)"
    using assms s by (simp add: delete_kb_def)
  from delete_s3_spec [OF s] obtain evs where
    evs: "trace w3 = trace w2 @ evs"
         "prefix (requests evs)
             (ListObjects (bucket_name self) #
              map (DeleteObject (bucket_name self)) (listed evs) @
              [DeleteBucket (bucket_name self)])"
    by blast
  have sub: "set (requests evs) \<subseteq>
               set (ListObjects (bucket_name self) #
                    map (DeleteObject (bucket_name self)) (listed evs) @
                    [DeleteBucket (bucket_name self)])"
    using evs(2) by (rule set_mono_prefix)
  have "\<not> is_iam_request c" if "c \<in> set (requests evs)" for c
    using sub that by auto
  then have "\<not> list_ex is_iam_request (requests evs)"
    by (auto simp: list_ex_iff)
  moreover have "trace w3 =
      trace w @
      [Call (DeleteDataSource (dataSourceId (data_source self))
               (knowledgeBaseId (knowledge_base self))) (Inr r1),
       Call (DeleteKnowledgeBase (knowledgeBaseId (knowledge_base self))) (Inr r2)] @ evs"
    using call_world [OF assms(1)] call_world [OF assms(2)] evs(1) by simp
  ultimately show "\<not> list_ex is_iam_request (requests (added w w3))"
    by (simp add: added_def list_ex_iff)
next
  assume "delete_s3 srv self w2 = (Inr u, w3) \<and>
          delete_iam_roles_and_policies srv self w3 = (Inl e, w4)"
  then show "delete_kb srv self True True w = (Inl e, w4)"
    using assms by (simp add: delete_kb_def)
qed

theorem optional_steps_propagate_witness:
  "delete_s3 scripted pets_object \<lparr>cloud = [Inl ClientError], trace = [
       Call (DeleteDataSource ''DS-pets-kb'' ''KB-pets-kb'') (Inr Done),
       Call (DeleteKnowledgeBase ''KB-pets-kb'') (Inr Done)]\<rparr> =
     (Inl ClientError,
      \<lparr>cloud = [], trace = [
       Call (DeleteDataSource ''DS-pets-kb'' ''KB-pets-kb'') (Inr Done),
       Call (DeleteKnowledgeBase ''KB-pets-kb'') (Inr Done),
       Call (ListObjects ''bedrock-kb-bucket-0a1b2c3d'') (Inl ClientError)]\<rparr>) \<and>
   fst (delete_kb scripted pets_object True True listing_fails_script) = Inl ClientError"
proof -
  let ?w1 = "\<lparr>cloud = [Inr Done, Inl ClientError], trace = [
       Call (DeleteDataSource ''DS-pets-kb'' ''KB-pets-kb'') (Inr Done)]\<rparr>"
  let ?w2 = "\<lparr>cloud = [Inl ClientError], trace = [
       Call (DeleteDataSource ''DS-pets-kb'' ''KB-pets-kb'') (Inr Done),
       Call (DeleteKnowledgeBase ''KB-pets-kb'') (Inr Done)]\<rparr>"
  let ?w3 = "\<lparr>cloud = [], trace = [
       Call (DeleteDataSource ''DS-pets-kb'' ''KB-pets-kb'') (Inr Done),
       Call (DeleteKnowledgeBase ''KB-pets-kb'') (Inr Done),
       Call (ListObjects ''bedrock-kb-bucket-0a1b2c3d'') (Inl ClientError)]\<rparr>"
  have c1: "call scripted (DeleteDataSource (dataSourceId (data_source pets_object))
                       (knowledgeBaseId (knowledge_base pets_object))) listing_fails_script =
              (Inr Done, ?w1)"
    by (simp add: teardown_run_simps listing_fails_script_def)
  have c2: "call scripted (DeleteKnowledgeBase (knowledgeBaseId (knowledge_base pets_object))) ?w1 =
              (Inr Done, ?w2)"
    by (simp add: teardown_run_simps)
  have s: "delete_s3 scripted pets_object ?w2 = (Inl ClientError, ?w3)"
    by (simp add: teardown_run_simps)
  from optional_steps_propagate [OF c1 c2, of ClientError ?w3] s
  have "delete_kb scripted pets_object True True listing_fails_script = (Inl ClientError, ?w3)"
    by blast
  with s show ?thesis by simp
qed

text \<open>C8 as stated fails: the listing of the bucket raises, the teardown raises with it,
  and the three requests sent are all there is: the IAM step did not run.\<close>

theorem storage_failure_blocks_iam_counterexample:
  "fst (delete_kb scripted pets_object True True listing_fails_script) = Inl ClientError \<and>
   requests (trace (snd (delete_kb scripted pets_object True True listing_fails_script))) =
     [DeleteDataSource ''DS-pets-kb'' ''KB-pets-kb'',
      DeleteKnowledgeBase ''KB-pets-kb'',
      ListObjects ''bedrock-kb-bucket-0a1b2c3d'']"
  by (simp add: teardown_run_simps listing_fails_script_def)

lemma jobs_append [simp]: "jobs (xs @ ys) = jobs xs @ jobs ys"
  by (induction xs rule: jobs.induct) auto

text \<open>When the loop returns a job, that job is \<^verbatim>\<open>COMPLETE\<close> and is the last one fetched (or
  the one the loop started with), no job before it was \<^verbatim>\<open>COMPLETE\<close>, and the loop did nothing
  but fetch the job: no sleep, no other request.\<close>

lemma poll_ingestion_job_exit:
  assumes "poll_ingestion_job srv kb ds job w = Some (Inr job', w')"
  shows "\<exists>evs. trace w' = trace w @ evs \<and> slept evs = 0 \<and>
           list_all is_job_poll (requests evs) \<and>
           job' = last (job # jobs evs) \<and> job_status job' = ''COMPLETE'' \<and>
           list_all (\<lambda>j. job_status j \<noteq> ''COMPLETE'') (butlast (job # jobs evs))"
proof -
  have "\<forall>job' w'. y = (Inr job', w') \<longrightarrow>
          (\<exists>evs. trace w' = trace w @ evs \<and> slept evs = 0 \<and>
             list_all is_job_poll (requests evs) \<and>
             job' = last (job # jobs evs) \<and> job_status job' = ''COMPLETE'' \<and>
             list_all (\<lambda>j. job_status j \<noteq> ''COMPLETE'') (butlast (job # jobs evs)))"
    if "poll_ingestion_job srv kb ds job w = Some y" for y
    using that
  proof (induction srv kb ds job w y
      rule: poll_ingestion_job.raw_induct [rotated, consumes 1, case_names step])
    case (step poll srv kb ds job w y)
    note 1 = step
    show ?case
    proof (intro allI impI)
      fix job' w'
      assume y: "y = (Inr job', w')"
      show "\<exists>evs. trace w' = trace w @ evs \<and> slept evs = 0 \<and>
             list_all is_job_poll (requests evs) \<and>
             job' = last (job # jobs evs) \<and> job_status job' = ''COMPLETE'' \<and>
             list_all (\<lambda>j. job_status j \<noteq> ''COMPLETE'') (butlast (job # jobs evs))"
      proof (cases "job_status job = ''COMPLETE''")
        case True
        with 1(2) y show ?thesis by (intro exI [of _ "[]"]) auto
      next
        case False
        obtain r w1 where c: "call srv (GetIngestionJob kb ds (ingestionJobId job)) w = (r, w1)"
          by (cases "call srv (GetIngestionJob kb ds (ingestionJobId job)) w")
        have t: "trace w1 = trace w @ [Call (GetIngestionJob kb ds (ingestionJobId job)) r]"
          using call_world [OF c] by simp
        from 1(2) y False c obtain j1 where
          r: "r = Inr (IngestionJob j1)" and rec: "poll srv kb ds j1 w1 = Some y"
          by (auto simp: ingestionJob_of_def split: sum.splits response.splits)
        from 1(1) [OF rec] y obtain evs where
          evs: "trace w' = trace w1 @ evs" "slept evs = 0"
               "list_all is_job_poll (requests evs)"
               "job' = last (j1 # jobs evs)" "job_status job' = ''COMPLETE''"
               "list_all (\<lambda>j. job_status j \<noteq> ''COMPLETE'') (butlast (j1 # jobs evs))"
          by blast
        let ?evs = "Call (GetIngestionJob kb ds (ingestionJobId job)) r # evs"
        have "trace w' = trace w @ ?evs" using evs(1) t by simp
        moreover have "slept ?evs = 0" using evs(2) by simp
        moreover have "list_all is_job_poll (requests ?evs)" using evs(3) by simp
        moreover have "jobs ?evs = j1 # jobs evs" using r by simp
        ultimately show ?thesis
          using evs(4,5,6) False by (intro exI [of _ ?evs]) simp
      qed
    qed
  qed
  with assms show ?thesis by blast
qed

text \<open>A service on which the job never becomes \<^verbatim>\<open>COMPLETE\<close>: in every state that satisfies
  \<open>stuck\<close>, the job is fetched without an exception, its status is not \<^verbatim>\<open>COMPLETE\<close>, and the
  state that follows satisfies \<open>stuck\<close> again.  On such a service the loop does not
  return.\<close>

lemma poll_ingestion_job_diverges:
  assumes step: "\<And>s j. stuck s \<Longrightarrow>
            \<exists>job' s'. srv s (GetIngestionJob kb ds j) = (Inr (IngestionJob job'), s') \<and>
                      job_status job' \<noteq> ''COMPLETE'' \<and> stuck s'"
    and "stuck (cloud w)" and "job_status job \<noteq> ''COMPLETE''"
  shows "poll_ingestion_job srv kb ds job w = None"
proof (rule ccontr)
  assume "poll_ingestion_job srv kb ds job w \<noteq> None"
  then obtain y where y: "poll_ingestion_job srv kb ds job w = Some y" by auto
  have "\<not> (stuck (cloud w) \<and> job_status job \<noteq> ''COMPLETE'')"
    using y step
  proof (induction srv kb ds job w y
      rule: poll_ingestion_job.raw_induct [rotated, consumes 1, case_names step])
    case (step poll srv kb ds job w y)
    note 1 = step
    show ?case
    proof
      assume a: "stuck (cloud w) \<and> job_status job \<noteq> ''COMPLETE''"
      then obtain job' s' where
        s: "srv (cloud w) (GetIngestionJob kb ds (ingestionJobId job)) =
              (Inr (IngestionJob job'), s')"
           "job_status job' \<noteq> ''COMPLETE''" "stuck s'"
        using 1(3) by blast
      let ?w1 = "\<lparr>cloud = s',
                  trace = trace w @
                    [Call (GetIngestionJob kb ds (ingestionJobId job))
                       (Inr (IngestionJob job'))]\<rparr>"
      have "poll srv kb ds job' ?w1 = Some y"
        using 1(2) a s(1) by (simp add: call_def ingestionJob_of_def)
      from 1(1) [OF this 1(3)] s(2,3) show False by simp
    qed
  qed
  with assms(2,3) show False by simp
qed

text \<open>
  C9.  When the job that \<^verbatim>\<open>start_ingestion_job\<close> starts is not \<^verbatim>\<open>COMPLETE\<close> and never becomes
  \<^verbatim>\<open>COMPLETE\<close> (it is, say, \<^verbatim>\<open>FAILED\<close> for good), the method does not return: no number of
  polls ends the loop.  And when the method does return normally, the job fetched last is
  the first that was \<^verbatim>\<open>COMPLETE\<close>, the requests are the start and then polls only, and all
  the sleeping there was is the 40 seconds after the loop: the polls follow one another
  with no delay.
\<close>

theorem bulk_job_polling_unbounded:
  "((\<forall>s j. stuck s \<longrightarrow>
        (\<exists>job' s'. srv s (GetIngestionJob (knowledgeBaseId (knowledge_base self))
                            (dataSourceId (data_source self)) j) =
                      (Inr (IngestionJob job'), s') \<and>
                    job_status job' \<noteq> ''COMPLETE'' \<and> stuck s')) \<and>
    srv (cloud w) (StartIngestionJob (knowledgeBaseId (knowledge_base self))
                     (dataSourceId (data_source self))) = (Inr (IngestionJob job), s1) \<and>
    job_status job \<noteq> ''COMPLETE'' \<and> stuck s1
    \<longrightarrow> start_ingestion_job srv self w = None) \<and>
   (start_ingestion_job srv self w = Some (Inr u, w')
    \<longrightarrow> (\<exists>evs. added w w' = evs @ replicate 40 (Sleep 1) \<and> slept evs = 0 \<and>
           hd (requests evs) =
             StartIngestionJob (knowledgeBaseId (knowledge_base self))
               (dataSourceId (data_source self)) \<and>
           list_all is_job_poll (tl (requests evs)) \<and>
           jobs evs \<noteq> [] \<and> job_status (last (jobs evs)) = ''COMPLETE'' \<and>
           list_all (\<lambda>j. job_status j \<noteq> ''COMPLETE'') (butlast (jobs evs))))"
proof (intro conjI impI)
  let ?kb = "knowledgeBaseId (knowledge_base self)"
  let ?ds = "dataSourceId (data_source self)"
  assume h: "(\<forall>s j. stuck s \<longrightarrow>
        (\<exists>job' s'. srv s (GetIngestionJob ?kb ?ds j) = (Inr (IngestionJob job'), s') \<and>
                    job_status job' \<noteq> ''COMPLETE'' \<and> stuck s')) \<and>
    srv (cloud w) (StartIngestionJob ?kb ?ds) = (Inr (IngestionJob job), s1) \<and>
    job_status job \<noteq> ''COMPLETE'' \<and> stuck s1"
  let ?w1 = "\<lparr>cloud = s1,
              trace = trace w @ [Call (StartIngestionJob ?kb ?ds) (Inr (IngestionJob job))]\<rparr>"
  have "poll_ingestion_job srv ?kb ?ds job ?w1 = None"
    by (rule poll_ingestion_job_diverges [where stuck = stuck]) (use h in auto)
  with h show "start_ingestion_job srv self w = None"
    by (simp add: start_ingestion_job_def call_def ingestionJob_of_def)
next
  let ?kb = "knowledgeBaseId (knowledge_base self)"
  let ?ds = "dataSourceId (data_source self)"
  assume run: "start_ingestion_job srv self w = Some (Inr u, w')"
  obtain r w1 where c: "call srv (StartIngestionJob ?kb ?ds) w = (r, w1)"
    by (cases "call srv (StartIngestionJob ?kb ?ds) w")
  have t: "trace w1 = trace w @ [Call (StartIngestionJob ?kb ?ds) r]"
    using call_world [OF c] by simp
  from run c obtain job job' w2 where
    r: "r = Inr (IngestionJob job)" and
    p: "poll_ingestion_job srv ?kb ?ds job w1 = Some (Inr job', w2)" and
    w': "w' = interactive_sleep 40 w2"
    by (auto simp: start_ingestion_job_def ingestionJob_of_def Let_def
        split: sum.splits response.splits option.splits)
  from poll_ingestion_job_exit [OF p] obtain evs where
    evs: "trace w2 = trace w1 @ evs" "slept evs = 0" "list_all is_job_poll (requests evs)"
         "job' = last (job # jobs evs)" "job_status job' = ''COMPLETE''"
         "list_all (\<lambda>j. job_status j \<noteq> ''COMPLETE'') (butlast (job # jobs evs))"
    by blast
  let ?evs = "Call (StartIngestionJob ?kb ?ds) r # evs"
  have "trace w' = trace w @ ?evs @ replicate 40 (Sleep 1)"
    using w' evs(1) t by (simp add: interactive_sleep_trace)
  then have "added w w' = ?evs @ replicate 40 (Sleep 1)"
    by (rule added_append)
  moreover have "jobs ?evs = job # jobs evs" using r by simp
  ultimately show "\<exists>evs. added w w' = evs @ replicate 40 (Sleep 1) \<and> slept evs = 0 \<and>
           hd (requests evs) = StartIngestionJob ?kb ?ds \<and>
           list_all is_job_poll (tl (requests evs)) \<and>
           jobs evs \<noteq> [] \<and> job_status (last (jobs evs)) = ''COMPLETE'' \<and>
           list_all (\<lambda>j. job_status j \<noteq> ''COMPLETE'') (butlast (jobs evs))"
    using evs(2-6) by (intro exI [of _ ?evs]) simp
qed

theorem bulk_job_polling_unbounded_witness:
  "job_status failed_job \<noteq> ''COMPLETE'' \<and>
   start_ingestion_job (always (Inr (IngestionJob failed_job))) pets_object
     \<lparr>cloud = (), trace = []\<rparr> = None \<and>
   map_option fst (start_ingestion_job scripted pets_object completing_script) = Some (Inr ())"
proof -
  have f: "job_status failed_job \<noteq> ''COMPLETE''"
    by (simp add: failed_job_def)
  have "start_ingestion_job (always (Inr (IngestionJob failed_job))) pets_object
          \<lparr>cloud = (), trace = []\<rparr> = None"
    using bulk_job_polling_unbounded
            [where srv = "always (Inr (IngestionJob failed_job))" and stuck = "\<lambda>s. True"
               and self = pets_object and w = "\<lparr>cloud = (), trace = []\<rparr>"
               and job = failed_job and ?s1.0 = "()"] f
    by (simp add: always_def)
  moreover
  have "map_option fst (start_ingestion_job scripted pets_object completing_script) =
          Some (Inr ())"
    by (simp add: start_ingestion_job_def poll_ingestion_job.simps call_def scripted_def
        completing_script_def ingestionJob_of_def pets_object_def Let_def)
  ultimately show ?thesis using f by blast
qed

section \<open>Claims on the vector index dimension\<close>

lemma call_eq_iff:
  "call srv c w = (r, w') \<longleftrightarrow>
     fst (srv (cloud w) c) = r \<and> cloud w' = snd (srv (cloud w) c) \<and>
     trace w' = trace w @ [Call c r]"
  by (cases w') (auto simp: call_def split: prod.splits)


















lemma get_role_keeps:
  "call srv (GetRole name) w = (r, w') \<Longrightarrow> keeps dimension_1024 w w'"
  by (auto simp: call_eq_iff keeps_def)


lemma adopt_knowledge_base_keeps:
  "adopt_knowledge_base srv self e w = (res, w') \<Longrightarrow> keeps dimension_1024 w w'"
  by (auto simp: adopt_knowledge_base_def call_eq_iff keeps_def
      split: prod.splits sum.splits response.splits if_splits)












end
